theory Spec2Isabelle
  imports Complex_Main "HOL-Library.Multiset"
begin

section \<open>Data model of \<^verbatim>\<open>pyLib/optics.py\<close>\<close>

text \<open>
  The module post-processes turn-by-turn recordings of a particle tracker. Floating-point
  numbers are modelled by exact reals, numpy arrays by lists, and every exception the
  Python can raise by an \<^verbatim>\<open>Inl\<close> value. A recording holds two-dimensional arrays
  (particle, turn); the source reads row 0 of them with \<^verbatim>\<open>[0, :]\<close>.
\<close>

datatype error = IndexError | ValueError | LinAlgError

text \<open>Sequencing of fallible steps: the first exception raised is the result.\<close>

definition bind :: "error + 'a \<Rightarrow> ('a \<Rightarrow> error + 'b) \<Rightarrow> error + 'b" where
  "bind m f = (case m of Inl e \<Rightarrow> Inl e | Inr v \<Rightarrow> f v)"

text \<open>Physical recording: attributes \<^verbatim>\<open>.x\<close> and \<^verbatim>\<open>.px\<close>.\<close>

record tbt =
  tbt_x :: "real list list"
  tbt_px :: "real list list"

text \<open>Normalized recording: attributes \<^verbatim>\<open>.x_norm\<close> and \<^verbatim>\<open>.px_norm\<close>.\<close>

record nc_tbt =
  x_norm :: "real list list"
  px_norm :: "real list list"

text \<open>
  The line object. The tracking engine is opaque: \<^verbatim>\<open>build_particles(x, delta)\<close> followed
  by \<^verbatim>\<open>track(p, num_turns, turn_by_turn_monitor=True)\<close> is a function \<open>tracker\<close> of the
  start position, the momentum offset and the number of turns; \<^verbatim>\<open>track\<close> stores its
  recording in the attribute \<^verbatim>\<open>record_last_track\<close> of the line.
\<close>

record line =
  tracker :: "real \<Rightarrow> real \<Rightarrow> nat \<Rightarrow> tbt"
  record_last_track :: tbt

definition track :: "line \<Rightarrow> real \<Rightarrow> real \<Rightarrow> nat \<Rightarrow> line" where
  "track l x_start delta num_turns = l\<lparr>record_last_track := tracker l x_start delta num_turns\<rparr>"

text \<open>
  Python lists are objects: a store maps the address of a list to its elements, and the
  program state is the store together with the line object.
\<close>

type_synonym addr = nat

record state =
  heap :: "addr \<Rightarrow> real list"
  myLine :: line

section \<open>Boundary bisection: \<^verbatim>\<open>closest_stable_unstable\<close>\<close>

text \<open>\<^verbatim>\<open>(rec_test.x > xBoundary).any()\<close>: some entry of the whole array exceeds the boundary.\<close>

definition unstable :: "tbt \<Rightarrow> real \<Rightarrow> bool" where
  "unstable rec_test xBoundary = list_ex (list_ex (\<lambda>v. v > xBoundary)) (tbt_x rec_test)"

text \<open>
  One pass through the body of the \<^verbatim>\<open>while\<close> loop (lines 51 to 66). The loop condition has
  read \<^verbatim>\<open>xSearch[1]\<close> before, so both assignments are within the list.
\<close>

definition bisect_step :: "state \<Rightarrow> nat \<Rightarrow> real \<Rightarrow> real \<Rightarrow> addr \<Rightarrow> state" where
  "bisect_step s num_turns d_gen xBoundary xSearch =
    (let xs = heap s xSearch;
         x_test = (xs ! 0 + xs ! 1) / 2;
         l = track (myLine s) x_test d_gen num_turns;
         rec_test = record_last_track l
     in if unstable rec_test xBoundary
        then s\<lparr>heap := (heap s)(xSearch := xs[1 := x_test]), myLine := l\<rparr>
        else s\<lparr>heap := (heap s)(xSearch := xs[0 := x_test]), myLine := l\<rparr>)"

text \<open>
  The loop. Reading \<^verbatim>\<open>xSearch[1]\<close> in the loop condition raises IndexError on a list of
  fewer than two elements. The loop has no iteration cap, so the model is a partial
  function: \<open>None\<close> is a run that never returns. The value returned is the address of
  the list that was passed in.
\<close>

partial_function (option) closest_stable_unstable ::
  "state \<Rightarrow> nat \<Rightarrow> real \<Rightarrow> real \<Rightarrow> addr \<Rightarrow> real \<Rightarrow> (error + addr \<times> state) option" where
  "closest_stable_unstable s num_turns d_gen xBoundary xSearch absPrecisio =
    (if length (heap s xSearch) < 2 then Some (Inl IndexError)
     else if heap s xSearch ! 1 - heap s xSearch ! 0 > absPrecisio
     then closest_stable_unstable (bisect_step s num_turns d_gen xBoundary xSearch)
            num_turns d_gen xBoundary xSearch absPrecisio
     else Some (Inr (xSearch, s)))"

section \<open>numpy operations used by the post-processing\<close>

text \<open>\<^verbatim>\<open>a[0, :]\<close> on a two-dimensional array: IndexError when the array has no row.\<close>

definition row0 :: "real list list \<Rightarrow> error + real list" where
  "row0 a = (case a of [] \<Rightarrow> Inl IndexError | r # _ \<Rightarrow> Inr r)"

text \<open>
  \<^verbatim>\<open>a[i]\<close> on a one-dimensional array of size \<open>n\<close>: an index from \<open>-n\<close> to \<open>-1\<close> counts
  from the end, an index outside \<open>-n \<dots> n - 1\<close> raises IndexError.
\<close>

definition getitem :: "'a list \<Rightarrow> int \<Rightarrow> error + 'a" where
  "getitem a i =
    (if 0 \<le> i \<and> i < int (length a) then Inr (a ! nat i)
     else if - int (length a) \<le> i \<and> i < 0 then Inr (a ! nat (int (length a) + i))
     else Inl IndexError)"

text \<open>\<^verbatim>\<open>a[[i, j, ...]]\<close> with non-negative indices.\<close>

definition take_indices :: "'a list \<Rightarrow> nat list \<Rightarrow> error + 'a list" where
  "take_indices a idx =
    (if list_all (\<lambda>i. i < length a) idx then Inr (map ((!) a) idx) else Inl IndexError)"

text \<open>
  An elementwise binary operation on two one-dimensional arrays: equal sizes pair up, an
  array of size one is stretched, any other pair of sizes raises ValueError.
\<close>

definition broadcast2 :: "('a \<Rightarrow> 'b \<Rightarrow> 'c) \<Rightarrow> 'a list \<Rightarrow> 'b list \<Rightarrow> error + 'c list" where
  "broadcast2 f a b =
    (if length a = length b then Inr (map2 f a b)
     else if length a = 1 then Inr (map (f (a ! 0)) b)
     else if length b = 1 then Inr (map (\<lambda>u. f u (b ! 0)) a)
     else Inl ValueError)"

text \<open>
  \<^verbatim>\<open>np.argmin\<close> and \<^verbatim>\<open>np.argmax\<close>: the first index of the least (greatest) entry;
  ValueError on an empty array.
\<close>

fun argmin_loop :: "real list \<Rightarrow> nat \<Rightarrow> nat \<Rightarrow> real \<Rightarrow> nat" where
  "argmin_loop [] i best bv = best"
| "argmin_loop (v # vs) i best bv =
    (if v < bv then argmin_loop vs (Suc i) i v else argmin_loop vs (Suc i) best bv)"

definition argmin :: "real list \<Rightarrow> error + nat" where
  "argmin a = (case a of [] \<Rightarrow> Inl ValueError | v # vs \<Rightarrow> Inr (argmin_loop vs 1 0 v))"

fun argmax_loop :: "real list \<Rightarrow> nat \<Rightarrow> nat \<Rightarrow> real \<Rightarrow> nat" where
  "argmax_loop [] i best bv = best"
| "argmax_loop (v # vs) i best bv =
    (if bv < v then argmax_loop vs (Suc i) i v else argmax_loop vs (Suc i) best bv)"

definition argmax :: "real list \<Rightarrow> error + nat" where
  "argmax a = (case a of [] \<Rightarrow> Inl ValueError | v # vs \<Rightarrow> Inr (argmax_loop vs 1 0 v))"

text \<open>
  \<^verbatim>\<open>np.polyfit([xa, xb], [ya, yb], deg=1)\<close> in exact arithmetic (the rank tolerance
  \<^verbatim>\<open>rcond\<close> of the solver, a small multiple of the machine epsilon, is taken as zero): the least-squares
  line, coefficients highest degree first. Two distinct abscissae give the line through
  both points. Equal abscissae make the system rank deficient: numpy scales the columns
  of the Vandermonde matrix by their norms and returns the minimum-norm solution (with a
  RankWarning), which is \<open>[m / (2 x), m / 2]\<close> for the mean \<open>m\<close> of the ordinates; at
  \<open>x = 0\<close> the scaling divides zero by zero and the solver raises LinAlgError.
\<close>

definition polyfit_deg1 :: "real \<Rightarrow> real \<Rightarrow> real \<Rightarrow> real \<Rightarrow> error + real list" where
  "polyfit_deg1 xa xb ya yb =
    (if xa \<noteq> xb then Inr [(ya - yb) / (xa - xb), ya - (ya - yb) / (xa - xb) * xa]
     else if xa \<noteq> 0 then Inr [((ya + yb) / 2) / (2 * xa), ((ya + yb) / 2) / 2]
     else Inl LinAlgError)"

text \<open>\<^verbatim>\<open>np.polyval(p, v)\<close>: Horner's scheme over the coefficients.\<close>

definition polyval :: "real list \<Rightarrow> real \<Rightarrow> real" where
  "polyval p v = foldl (\<lambda>y c. y * v + c) 0 p"

text \<open>
  \<^verbatim>\<open>np.angle(z)\<close> is \<^verbatim>\<open>arctan2(z.imag, z.real)\<close>, a value in \<open>(-\<pi>, \<pi>]\<close>, and \<open>0\<close> at the
  origin.
\<close>

definition arctan2 :: "real \<Rightarrow> real \<Rightarrow> real" where
  "arctan2 b a =
    (if 0 < a then arctan (b / a)
     else if a < 0 then (if 0 \<le> b then arctan (b / a) + pi else arctan (b / a) - pi)
     else if 0 < b then pi / 2
     else if b < 0 then - (pi / 2)
     else 0)"

definition angle :: "complex \<Rightarrow> real" where
  "angle z = arctan2 (Im z) (Re z)"

section \<open>Septum crossing fit: \<^verbatim>\<open>separatrix_at_septum\<close>\<close>

record separatrix_results =
  slope :: real
  px_at_septum :: real
  closer_turn :: nat
  poly_sep :: "real list"

definition separatrix_at_septum :: "tbt \<Rightarrow> real \<Rightarrow> error + separatrix_results" where
  "separatrix_at_septum rec_sep xBoundary =
    bind (row0 (tbt_x rec_sep)) (\<lambda>x_separ.
    bind (row0 (tbt_px rec_sep)) (\<lambda>px_separ.
    bind (argmin (map (\<lambda>v. \<bar>v - xBoundary\<bar>) x_separ)) (\<lambda>i_septum.
    bind (getitem x_separ (int i_septum + 3)) (\<lambda>xa.
    bind (getitem x_separ (int i_septum - 3)) (\<lambda>xb.
    bind (getitem px_separ (int i_septum + 3)) (\<lambda>ya.
    bind (getitem px_separ (int i_septum - 3)) (\<lambda>yb.
    bind (polyfit_deg1 xa xb ya yb) (\<lambda>poly.
    Inr \<lparr>slope = poly ! 0, px_at_septum = polyval poly xBoundary,
         closer_turn = i_septum, poly_sep = poly\<rparr>))))))))"

section \<open>Angular sort: \<^verbatim>\<open>sort_stable_boundary_coordinates\<close>\<close>

text \<open>
  \<^verbatim>\<open>np.argsort\<close> is called with its default \<^verbatim>\<open>kind\<close> (quicksort), which numpy documents
  as not stable: what the caller may rely on is that the result lists every index once
  and that the keys are in non-decreasing order along it. The sorting routine is a
  parameter of the model, and \<open>argsort_contract\<close> says what numpy promises of it.
\<close>

definition argsort_contract :: "(real list \<Rightarrow> nat list) \<Rightarrow> bool" where
  "argsort_contract argsort =
    (\<forall>keys. mset (argsort keys) = mset [0..<length keys] \<and>
            sorted (map ((!) keys) (argsort keys)))"

record sorted_coordinates =
  x_triang :: "real list"
  px_triang :: "real list"
  x_norm_triang :: "real list"
  px_norm_triang :: "real list"

definition theta_of :: "real list \<Rightarrow> real list \<Rightarrow> error + real list" where
  "theta_of xn pxn = bind (broadcast2 Complex xn pxn) (\<lambda>z. Inr (map angle z))"

definition sort_stable_boundary_coordinates ::
  "(real list \<Rightarrow> nat list) \<Rightarrow> tbt \<Rightarrow> nc_tbt \<Rightarrow> error + sorted_coordinates" where
  "sort_stable_boundary_coordinates argsort tbt_triang nc_tbt_triang =
    bind (row0 (tbt_x tbt_triang)) (\<lambda>x_tr.
    bind (row0 (tbt_px tbt_triang)) (\<lambda>px_tr.
    bind (row0 (x_norm nc_tbt_triang)) (\<lambda>x_norm_tr.
    bind (row0 (px_norm nc_tbt_triang)) (\<lambda>px_norm_tr.
    bind (theta_of x_norm_tr px_norm_tr) (\<lambda>theta_triang.
    let i_sorted = argsort theta_triang in
    bind (take_indices x_tr i_sorted) (\<lambda>a.
    bind (take_indices px_tr i_sorted) (\<lambda>b.
    bind (take_indices x_norm_tr i_sorted) (\<lambda>c.
    bind (take_indices px_norm_tr i_sorted) (\<lambda>d.
    Inr \<lparr>x_triang = a, px_triang = b, x_norm_triang = c, px_norm_triang = d\<rparr>)))))))))"

section \<open>Fixed-point search: \<^verbatim>\<open>find_fixed_points\<close>\<close>

record fixed_points =
  x_norm_fp :: "real list"
  px_norm_fp :: "real list"
  x_fp :: "real list"
  px_fp :: "real list"

text \<open>
  The search disk around the first fixed point turned by \<open>rot\<close>, and the amplitudes with
  the entries outside the disk multiplied by zero (\<^verbatim>\<open>r_triang_norm * mask\<close>).
\<close>

definition mask_fp :: "complex list \<Rightarrow> complex \<Rightarrow> complex \<Rightarrow> real \<Rightarrow> bool list" where
  "mask_fp z_triang_norm z_fp1 rot threshold =
    map (\<lambda>z. cmod (z - z_fp1 * rot) < threshold * cmod z_fp1) z_triang_norm"

definition masked :: "real list \<Rightarrow> bool list \<Rightarrow> real list" where
  "masked r msk = map2 (\<lambda>v m. v * (if m then 1 else 0)) r msk"

definition find_fixed_points :: "tbt \<Rightarrow> nc_tbt \<Rightarrow> real \<Rightarrow> error + fixed_points" where
  "find_fixed_points tbt_triang nc_tbt_triang threshold =
    bind (row0 (x_norm nc_tbt_triang)) (\<lambda>xn.
    bind (row0 (px_norm nc_tbt_triang)) (\<lambda>pxn.
    bind (broadcast2 Complex xn pxn) (\<lambda>z_triang_norm.
    bind (row0 (tbt_x tbt_triang)) (\<lambda>xp.
    bind (row0 (tbt_px tbt_triang)) (\<lambda>pxp.
    bind (broadcast2 Complex xp pxp) (\<lambda>z_triang.
    let r_triang_norm = map cmod z_triang_norm in
    bind (argmax r_triang_norm) (\<lambda>i_fp1.
    let z_fp1 = z_triang_norm ! i_fp1;
        mask_fp2 = mask_fp z_triang_norm z_fp1 (exp (\<i> * 2 / 3 * of_real pi)) threshold in
    bind (argmax (masked r_triang_norm mask_fp2)) (\<lambda>i_fp2.
    let mask_fp3 = mask_fp z_triang_norm z_fp1 (exp (- \<i> * 2 / 3 * of_real pi)) threshold in
    bind (argmax (masked r_triang_norm mask_fp3)) (\<lambda>i_fp3.
    bind (take_indices z_triang_norm [i_fp1, i_fp2, i_fp3]) (\<lambda>zn.
    bind (take_indices z_triang [i_fp1, i_fp2, i_fp3]) (\<lambda>zp.
    Inr \<lparr>x_norm_fp = map Re zn, px_norm_fp = map Im zn,
         x_fp = map Re zp, px_fp = map Im zp\<rparr>)))))))))))"

section \<open>Vocabulary of the properties and synthetic inputs\<close>

text \<open>
  A tracker has its stability boundary at \<open>b\<close> when a particle started below \<open>b\<close> never
  crosses \<open>xBoundary\<close> and a particle started above \<open>b\<close> does; nothing is asked of the
  particle started at \<open>b\<close> itself.
\<close>

definition stability_boundary ::
  "(real \<Rightarrow> real \<Rightarrow> nat \<Rightarrow> tbt) \<Rightarrow> real \<Rightarrow> nat \<Rightarrow> real \<Rightarrow> real \<Rightarrow> bool" where
  "stability_boundary trk d_gen num_turns xBoundary b =
    ((\<forall>x0. x0 < b \<longrightarrow> \<not> unstable (trk x0 d_gen num_turns) xBoundary) \<and>
     (\<forall>x0. b < x0 \<longrightarrow> unstable (trk x0 d_gen num_turns) xBoundary))"

text \<open>Width and midpoint of the interval stored at an address.\<close>

definition width :: "state \<Rightarrow> addr \<Rightarrow> real" where
  "width s a = heap s a ! 1 - heap s a ! 0"

definition x_mid :: "state \<Rightarrow> addr \<Rightarrow> real" where
  "x_mid s a = (heap s a ! 0 + heap s a ! 1) / 2"

text \<open>
  A synthetic tracker: the particle stays where it starts, so it is unstable exactly when
  it starts beyond \<open>xBoundary\<close>. The synthetic state holds the same list at every address
  and a line that has not tracked yet.
\<close>

definition standin_tracker :: "real \<Rightarrow> real \<Rightarrow> nat \<Rightarrow> tbt" where
  "standin_tracker x_start delta num_turns =
    \<lparr>tbt_x = [replicate num_turns x_start], tbt_px = [replicate num_turns delta]\<rparr>"

definition standin_state :: "real list \<Rightarrow> state" where
  "standin_state xs =
    \<lparr>heap = (\<lambda>_. xs),
     myLine = \<lparr>tracker = standin_tracker, record_last_track = \<lparr>tbt_x = [], tbt_px = []\<rparr>\<rparr>\<rparr>"

text \<open>A sorting routine that meets numpy's contract: the indices sorted by insertion.\<close>

definition insertion_argsort :: "real list \<Rightarrow> nat list" where
  "insertion_argsort keys = sort_key (\<lambda>i. keys ! i) [0..<length keys]"

text \<open>The open disk of a given centre and radius in normalized phase space.\<close>

definition in_disk :: "complex \<Rightarrow> real \<Rightarrow> complex \<Rightarrow> bool" where
  "in_disk centre radius z \<longleftrightarrow> cmod (z - centre) < radius"

section \<open>The bisection loop\<close>

lemma bisect_step_heap:
  "heap (bisect_step s n d xB a) a =
    (if unstable (tracker (myLine s) (x_mid s a) d n) xB
     then (heap s a)[1 := x_mid s a] else (heap s a)[0 := x_mid s a])"
  by (simp add: bisect_step_def Let_def track_def x_mid_def)

lemma bisect_step_heap_other:
  "a' \<noteq> a \<Longrightarrow> heap (bisect_step s n d xB a) a' = heap s a'"
  by (simp add: bisect_step_def Let_def)

lemma bisect_step_line:
  "myLine (bisect_step s n d xB a) =
     (myLine s)\<lparr>record_last_track := tracker (myLine s) (x_mid s a) d n\<rparr>"
  by (simp add: bisect_step_def Let_def track_def x_mid_def)

lemma bisect_step_length:
  "length (heap (bisect_step s n d xB a) a) = length (heap s a)"
  by (simp add: bisect_step_heap)

lemma bisect_step_width:
  assumes "2 \<le> length (heap s a)"
  shows "width (bisect_step s n d xB a) a = width s a / 2"
proof -
  from assms have "0 < length (heap s a)" "1 < length (heap s a)" by auto
  then show ?thesis
    by (simp add: width_def bisect_step_heap x_mid_def nth_list_update field_simps)
qed

lemma width_pow_bound:
  fixes w p :: real
  assumes "0 < p"
  shows "\<exists>k::nat. w \<le> 2 ^ k * p"
proof -
  obtain k :: nat where "w / p < 2 ^ k"
    using real_arch_pow [of 2 "w / p"] by auto
  with assms have "w < 2 ^ k * p"
    by (simp add: pos_divide_less_eq)
  then show ?thesis by (intro exI [of _ k]) simp
qed

text \<open>
  Total correctness of the loop for an invariant \<open>I\<close>: a width of at most \<open>2 ^ k * p\<close>
  is brought below \<open>p\<close> by at most \<open>k\<close> passes.
\<close>

lemma bisect_run:
  assumes prec: "0 < p"
    and step: "\<And>t. I t \<Longrightarrow> 2 \<le> length (heap t a) \<Longrightarrow> p < width t a \<Longrightarrow> I (bisect_step t n d xB a)"
  shows "I s \<Longrightarrow> 2 \<le> length (heap s a) \<Longrightarrow> width s a \<le> 2 ^ k * p \<Longrightarrow>
    \<exists>s'. closest_stable_unstable s n d xB a p = Some (Inr (a, s')) \<and> I s' \<and>
          2 \<le> length (heap s' a) \<and> width s' a \<le> p"
proof (induction k arbitrary: s)
  case 0
  then show ?case
    by (subst closest_stable_unstable.simps) (simp add: width_def)
next
  case (Suc k)
  show ?case
  proof (cases "p < width s a")
    case False
    with Suc.prems show ?thesis
      by (subst closest_stable_unstable.simps) (simp add: width_def)
  next
    case True
    let ?t = "bisect_step s n d xB a"
    have "I ?t" using step Suc.prems True by blast
    moreover have "2 \<le> length (heap ?t a)"
      using Suc.prems by (simp add: bisect_step_length)
    moreover have "width ?t a \<le> 2 ^ k * p"
      using Suc.prems by (simp add: bisect_step_width)
    ultimately obtain s' where
      "closest_stable_unstable ?t n d xB a p = Some (Inr (a, s'))" "I s'"
      "2 \<le> length (heap s' a)" "width s' a \<le> p"
      using Suc.IH by blast
    moreover have "closest_stable_unstable s n d xB a p = closest_stable_unstable ?t n d xB a p"
      using Suc.prems True by (subst closest_stable_unstable.simps) (simp add: width_def)
    ultimately show ?thesis by auto
  qed
qed

lemma bisect_rule:
  assumes "0 < p" "I s" "2 \<le> length (heap s a)"
    and "\<And>t. I t \<Longrightarrow> 2 \<le> length (heap t a) \<Longrightarrow> p < width t a \<Longrightarrow> I (bisect_step t n d xB a)"
  shows "\<exists>s'. closest_stable_unstable s n d xB a p = Some (Inr (a, s')) \<and> I s' \<and>
          2 \<le> length (heap s' a) \<and> width s' a \<le> p"
proof -
  obtain k :: nat where "width s a \<le> 2 ^ k * p"
    using width_pow_bound [OF assms(1)] by blast
  then show ?thesis
    using bisect_run [where I = I, OF assms(1) assms(4) assms(2) assms(3)] by blast
qed

lemma two_list: "length xs = 2 \<Longrightarrow> xs = [xs ! 0, xs ! 1]"
  by (cases xs; cases "tl xs") auto

lemma standin_unstable: "0 < n \<Longrightarrow> unstable (standin_tracker x0 d n) xB \<longleftrightarrow> xB < x0"
  by (auto simp: standin_tracker_def unstable_def list_ex_iff)

lemma standin_boundary: "0 < n \<Longrightarrow> stability_boundary standin_tracker d n xB xB"
  by (auto simp: stability_boundary_def standin_tracker_def unstable_def list_ex_iff)

lemma standin_run_0_2:
  "closest_stable_unstable (standin_state [0, 2]) 1 0 1 0 (1/2) =
    Some (Inr (0, \<lparr>heap = (\<lambda>_. [0, 2])(0 := [1, 3/2]),
      myLine = \<lparr>tracker = standin_tracker, record_last_track = standin_tracker (3/2) 0 1\<rparr>\<rparr>))"
  by (simp add: closest_stable_unstable.simps bisect_step_def standin_state_def track_def
      standin_tracker_def unstable_def Let_def)

text \<open>
  C1 (as amended). For a tracker whose stability boundary is \<open>b\<close>, an initial interval
  \<open>[lo, hi]\<close> with \<open>lo \<le> b \<le> hi\<close> and a positive precision, the search returns the list
  it was given, holding an interval \<open>[lo', hi']\<close> with \<open>lo' \<le> b \<le> hi'\<close> and
  \<open>hi' - lo' \<le> absPrecisio\<close>. The bounds are not strict: a midpoint that falls on \<open>b\<close>
  becomes an end of the interval. One pass of the loop tracks a particle at the midpoint,
  and moves the upper end to the midpoint when some recorded position exceeds
  \<open>xBoundary\<close>, the lower end otherwise.
\<close>

theorem closest_stable_unstable_brackets:
  assumes sb: "stability_boundary (tracker (myLine s)) d_gen num_turns xBoundary b"
    and xs: "heap s xSearch = [lo, hi]"
    and b: "lo \<le> b" "b \<le> hi"
    and p: "0 < absPrecisio"
  shows "(\<exists>s' lo' hi'.
      closest_stable_unstable s num_turns d_gen xBoundary xSearch absPrecisio
        = Some (Inr (xSearch, s')) \<and>
      heap s' xSearch = [lo', hi'] \<and> lo' \<le> b \<and> b \<le> hi' \<and> hi' - lo' \<le> absPrecisio) \<and>
    heap (bisect_step s num_turns d_gen xBoundary xSearch) xSearch =
      (if unstable (tracker (myLine s) ((lo + hi) / 2) d_gen num_turns) xBoundary
       then [lo, (lo + hi) / 2] else [(lo + hi) / 2, hi])"
proof -
  define I where "I t \<longleftrightarrow> length (heap t xSearch) = 2 \<and> heap t xSearch ! 0 \<le> b \<and>
    b \<le> heap t xSearch ! 1 \<and> tracker (myLine t) = tracker (myLine s)" for t :: state
  have init: "I s" using xs b by (simp add: I_def)
  have step: "I (bisect_step t num_turns d_gen xBoundary xSearch)"
    if "I t" for t
  proof (cases "unstable (tracker (myLine t) (x_mid t xSearch) d_gen num_turns) xBoundary")
    case True
    with sb that have "b \<le> x_mid t xSearch"
      unfolding stability_boundary_def I_def by (metis not_le)
    with that True show ?thesis
      by (simp add: I_def bisect_step_heap bisect_step_line)
  next
    case False
    with sb that have "x_mid t xSearch \<le> b"
      unfolding stability_boundary_def I_def by (metis not_le)
    with that False show ?thesis
      by (simp add: I_def bisect_step_heap bisect_step_line)
  qed
  have "\<exists>s'. closest_stable_unstable s num_turns d_gen xBoundary xSearch absPrecisio
        = Some (Inr (xSearch, s')) \<and> I s' \<and> 2 \<le> length (heap s' xSearch) \<and>
        width s' xSearch \<le> absPrecisio"
    by (rule bisect_rule [where I = I]) (use p init xs step in auto)
  then obtain s' where r: "closest_stable_unstable s num_turns d_gen xBoundary xSearch absPrecisio
        = Some (Inr (xSearch, s'))" and "I s'" and w: "width s' xSearch \<le> absPrecisio"
    by auto
  then have "heap s' xSearch = [heap s' xSearch ! 0, heap s' xSearch ! 1]"
    "heap s' xSearch ! 0 \<le> b" "b \<le> heap s' xSearch ! 1"
    using two_list by (auto simp: I_def)
  with r w have "\<exists>s' lo' hi'.
      closest_stable_unstable s num_turns d_gen xBoundary xSearch absPrecisio
        = Some (Inr (xSearch, s')) \<and>
      heap s' xSearch = [lo', hi'] \<and> lo' \<le> b \<and> b \<le> hi' \<and> hi' - lo' \<le> absPrecisio"
    unfolding width_def by blast
  moreover have "heap (bisect_step s num_turns d_gen xBoundary xSearch) xSearch =
      (if unstable (tracker (myLine s) ((lo + hi) / 2) d_gen num_turns) xBoundary
       then [lo, (lo + hi) / 2] else [(lo + hi) / 2, hi])"
    using xs by (simp add: bisect_step_heap x_mid_def)
  ultimately show ?thesis by (rule conjI)
qed

theorem closest_stable_unstable_brackets_witness:
  "stability_boundary (tracker (myLine (standin_state [0, 1]))) 0 1000 (35/1000) (35/1000) \<and>
   heap (standin_state [0, 1]) 0 = [0, 1] \<and>
   (\<exists>s' lo' hi'.
      closest_stable_unstable (standin_state [0, 1]) 1000 0 (35/1000) 0 (1/1000000)
        = Some (Inr (0, s')) \<and>
      heap s' 0 = [lo', hi'] \<and> lo' \<le> 35/1000 \<and> 35/1000 \<le> hi' \<and> hi' - lo' \<le> 1/1000000) \<and>
   heap (bisect_step (standin_state [0, 1]) 1000 0 (35/1000) 0) 0 = [0, 1/2]"
proof -
  have sb: "stability_boundary (tracker (myLine (standin_state [0, 1]))) 0 1000 (35/1000) (35/1000)"
    by (simp add: standin_state_def standin_boundary)
  have xs: "heap (standin_state [0, 1]) 0 = [0, 1]"
    by (simp add: standin_state_def)
  have b: "(0::real) \<le> 35/1000" "(35/1000::real) \<le> 1" and p: "(0::real) < 1/1000000"
    by simp_all
  have u: "unstable (tracker (myLine (standin_state [0, 1])) ((0 + 1) / 2) 0 1000) (35/1000)"
    by (simp add: standin_state_def standin_unstable)
  note w = closest_stable_unstable_brackets [OF sb xs b p]
  have "heap (bisect_step (standin_state [0, 1]) 1000 0 (35/1000) 0) 0 = [0, 1/2]"
    using w u by simp
  with w sb xs show ?thesis by (intro conjI) blast+
qed

text \<open>
  The strict bounds of C1 fail: on \<open>[0, 2]\<close> with the boundary at \<open>1\<close> the first midpoint
  is the boundary itself, it is classified stable, and the search returns \<open>[1, 3/2]\<close>.
\<close>

theorem closest_stable_unstable_strict_counterexample:
  "stability_boundary (tracker (myLine (standin_state [0, 2]))) 0 1 1 1 \<and>
   heap (standin_state [0, 2]) 0 = [0, 2] \<and>
   \<not> (\<exists>s' lo' hi'.
      closest_stable_unstable (standin_state [0, 2]) 1 0 1 0 (1/2) = Some (Inr (0, s')) \<and>
      heap s' 0 = [lo', hi'] \<and> lo' < 1 \<and> 1 < hi' \<and> hi' - lo' \<le> 1/2)"
proof -
  have "stability_boundary (tracker (myLine (standin_state [0, 2]))) 0 1 1 1"
    by (simp add: standin_state_def standin_boundary)
  moreover have "heap (standin_state [0, 2]) 0 = [0, 2]"
    by (simp add: standin_state_def)
  moreover have "\<not> (\<exists>s' lo' hi'.
      closest_stable_unstable (standin_state [0, 2]) 1 0 1 0 (1/2) = Some (Inr (0, s')) \<and>
      heap s' 0 = [lo', hi'] \<and> lo' < 1 \<and> 1 < hi' \<and> hi' - lo' \<le> 1/2)"
    unfolding standin_run_0_2 by auto
  ultimately show ?thesis by (intro conjI)
qed

text \<open>
  C8. Over exact arithmetic the loop terminates for every initial interval \<open>[lo, hi]\<close> with
  \<open>lo \<le> hi\<close> and every positive precision, whatever the tracker does: the search returns,
  the final width is at most the precision, and one pass of the loop body replaces one
  end by the midpoint, which halves the width.
\<close>

theorem closest_stable_unstable_terminates:
  assumes xs: "heap s xSearch = [lo, hi]" and le: "lo \<le> hi" and p: "0 < absPrecisio"
  shows "(\<exists>s' lo' hi'.
      closest_stable_unstable s num_turns d_gen xBoundary xSearch absPrecisio
        = Some (Inr (xSearch, s')) \<and>
      heap s' xSearch = [lo', hi'] \<and> hi' - lo' \<le> absPrecisio) \<and>
    (\<exists>lo1 hi1. heap (bisect_step s num_turns d_gen xBoundary xSearch) xSearch = [lo1, hi1] \<and>
      (lo1 = lo \<and> hi1 = (lo + hi) / 2 \<or> lo1 = (lo + hi) / 2 \<and> hi1 = hi) \<and>
      hi1 - lo1 = (hi - lo) / 2)"
proof -
  define I where "I t \<longleftrightarrow> length (heap t xSearch) = 2" for t :: state
  have "\<exists>s'. closest_stable_unstable s num_turns d_gen xBoundary xSearch absPrecisio
        = Some (Inr (xSearch, s')) \<and> I s' \<and> 2 \<le> length (heap s' xSearch) \<and>
        width s' xSearch \<le> absPrecisio"
    by (rule bisect_rule [where I = I]) (use p xs in \<open>auto simp: I_def bisect_step_length\<close>)
  then obtain s' where r: "closest_stable_unstable s num_turns d_gen xBoundary xSearch absPrecisio
        = Some (Inr (xSearch, s'))" and "I s'" and w: "width s' xSearch \<le> absPrecisio"
    by auto
  then have "heap s' xSearch = [heap s' xSearch ! 0, heap s' xSearch ! 1]"
    using two_list by (auto simp: I_def)
  with r w have "\<exists>s' lo' hi'.
      closest_stable_unstable s num_turns d_gen xBoundary xSearch absPrecisio
        = Some (Inr (xSearch, s')) \<and>
      heap s' xSearch = [lo', hi'] \<and> hi' - lo' \<le> absPrecisio"
    unfolding width_def by blast
  moreover have "\<exists>lo1 hi1.
      heap (bisect_step s num_turns d_gen xBoundary xSearch) xSearch = [lo1, hi1] \<and>
      (lo1 = lo \<and> hi1 = (lo + hi) / 2 \<or> lo1 = (lo + hi) / 2 \<and> hi1 = hi) \<and>
      hi1 - lo1 = (hi - lo) / 2"
  proof -
    have "heap (bisect_step s num_turns d_gen xBoundary xSearch) xSearch = [lo, (lo + hi) / 2] \<or>
      heap (bisect_step s num_turns d_gen xBoundary xSearch) xSearch = [(lo + hi) / 2, hi]"
      using xs by (simp add: bisect_step_heap x_mid_def)
    moreover have "(lo + hi) / 2 - lo = (hi - lo) / 2" "hi - (lo + hi) / 2 = (hi - lo) / 2"
      by (simp_all add: field_simps)
    ultimately show ?thesis by blast
  qed
  ultimately show ?thesis by blast
qed

theorem closest_stable_unstable_terminates_witness:
  "heap (standin_state [0, 1]) 0 = [0, 1] \<and>
   (\<exists>s' lo' hi'.
      closest_stable_unstable (standin_state [0, 1]) 1000 0 (35/1000) 0 (1/1000000)
        = Some (Inr (0, s')) \<and>
      heap s' 0 = [lo', hi'] \<and> hi' - lo' \<le> 1/1000000) \<and>
   (\<exists>lo1 hi1. heap (bisect_step (standin_state [0, 1]) 1000 0 (35/1000) 0) 0 = [lo1, hi1] \<and>
      (lo1 = 0 \<and> hi1 = (0 + 1) / 2 \<or> lo1 = (0 + 1) / 2 \<and> hi1 = 1) \<and>
      hi1 - lo1 = (1 - 0) / 2)"
proof -
  have xs: "heap (standin_state [0, 1]) 0 = [0, 1]"
    by (simp add: standin_state_def)
  have le: "(0::real) \<le> 1" and p: "(0::real) < 1/1000000" by simp_all
  show ?thesis
    using closest_stable_unstable_terminates [OF xs le p, of 1000 0 "35/1000"] xs
    by (intro conjI) blast+
qed

text \<open>
  C9 (as amended). The search returns the address of the list it was given, and that list
  holds the final bounds; no other list of the store changes and the tracking engine of
  the line is the same. The line object is an input too, and it is modified: when the
  initial interval is wider than the precision, its \<^verbatim>\<open>record_last_track\<close> is the recording
  of a test particle of the search; the state is unchanged only when the loop body never
  runs.
\<close>

theorem closest_stable_unstable_frame:
  assumes xs: "heap s xSearch = [lo, hi]" and p: "0 < absPrecisio"
  shows "\<exists>s' lo' hi'.
      closest_stable_unstable s num_turns d_gen xBoundary xSearch absPrecisio
        = Some (Inr (xSearch, s')) \<and>
      heap s' xSearch = [lo', hi'] \<and>
      (\<forall>a. a \<noteq> xSearch \<longrightarrow> heap s' a = heap s a) \<and>
      tracker (myLine s') = tracker (myLine s) \<and>
      (if hi - lo \<le> absPrecisio then s' = s
       else \<exists>x_test. record_last_track (myLine s') = tracker (myLine s) x_test d_gen num_turns)"
proof -
  define I where "I t \<longleftrightarrow> length (heap t xSearch) = 2 \<and>
    (\<forall>a. a \<noteq> xSearch \<longrightarrow> heap t a = heap s a) \<and>
    tracker (myLine t) = tracker (myLine s) \<and>
    (t = s \<or> (\<exists>x_test. record_last_track (myLine t) = tracker (myLine s) x_test d_gen num_turns))"
    for t :: state
  have init: "I s" using xs by (simp add: I_def)
  have step: "I (bisect_step t num_turns d_gen xBoundary xSearch)" if "I t" for t
    using that
    by (auto simp: I_def bisect_step_length bisect_step_heap_other bisect_step_line)
  have "\<exists>s'. closest_stable_unstable s num_turns d_gen xBoundary xSearch absPrecisio
        = Some (Inr (xSearch, s')) \<and> I s' \<and> 2 \<le> length (heap s' xSearch) \<and>
        width s' xSearch \<le> absPrecisio"
    by (rule bisect_rule [where I = I]) (use p init xs step in auto)
  then obtain s' where r: "closest_stable_unstable s num_turns d_gen xBoundary xSearch absPrecisio
        = Some (Inr (xSearch, s'))" and i: "I s'" and w: "width s' xSearch \<le> absPrecisio"
    by auto
  have l: "heap s' xSearch = [heap s' xSearch ! 0, heap s' xSearch ! 1]"
    using i two_list by (auto simp: I_def)
  have last: "if hi - lo \<le> absPrecisio then s' = s
       else \<exists>x_test. record_last_track (myLine s') = tracker (myLine s) x_test d_gen num_turns"
  proof (cases "hi - lo \<le> absPrecisio")
    case True
    then have "closest_stable_unstable s num_turns d_gen xBoundary xSearch absPrecisio
        = Some (Inr (xSearch, s))"
      using xs by (subst closest_stable_unstable.simps) simp
    with r True show ?thesis by simp
  next
    case False
    with w xs have "s' \<noteq> s" by (auto simp: width_def)
    with i False show ?thesis by (simp add: I_def)
  qed
  from r l i last show ?thesis unfolding I_def by blast
qed

lemma standin_run_0_1:
  "closest_stable_unstable (standin_state [0, 1]) 1 0 (35/1000) 0 (1/2) =
     Some (Inr (0, \<lparr>heap = (\<lambda>_. [0, 1])(0 := [0, 1/2]),
       myLine = \<lparr>tracker = standin_tracker, record_last_track = standin_tracker (1/2) 0 1\<rparr>\<rparr>))"
  by (simp add: closest_stable_unstable.simps bisect_step_def standin_state_def track_def
      standin_tracker_def unstable_def Let_def)

theorem closest_stable_unstable_frame_witness:
  "heap (standin_state [0, 1]) 0 = [0, 1] \<and>
   (\<exists>s' lo' hi'.
      closest_stable_unstable (standin_state [0, 1]) 1 0 (35/1000) 0 (1/2) = Some (Inr (0, s')) \<and>
      heap s' 0 = [lo', hi'] \<and>
      heap s' 1 = [0, 1] \<and>
      tracker (myLine s') = standin_tracker \<and>
      (\<exists>x_test. record_last_track (myLine s') = standin_tracker x_test 0 1))"
proof -
  have xs: "heap (standin_state [0, 1]) 0 = [0, 1]"
    by (simp add: standin_state_def)
  have p: "(0::real) < 1/2" by simp
  from closest_stable_unstable_frame [OF xs p, of 1 0 "35/1000"]
  obtain s' lo' hi' where
    "closest_stable_unstable (standin_state [0, 1]) 1 0 (35/1000) 0 (1/2) = Some (Inr (0, s'))"
    "heap s' 0 = [lo', hi']"
    "\<forall>a. a \<noteq> 0 \<longrightarrow> heap s' a = heap (standin_state [0, 1]) a"
    "tracker (myLine s') = tracker (myLine (standin_state [0, 1]))"
    "\<exists>x_test. record_last_track (myLine s') =
       tracker (myLine (standin_state [0, 1])) x_test 0 1"
    by auto
  then show ?thesis
    using xs by (auto simp: standin_state_def)
qed

text \<open>
  The last part of C9 fails: the search of \<open>[0, 1]\<close> with precision \<open>1/2\<close> tracks one test
  particle at \<open>1/2\<close> and leaves its recording in the line that was passed in.
\<close>

theorem closest_stable_unstable_line_counterexample:
  "closest_stable_unstable (standin_state [0, 1]) 1 0 (35/1000) 0 (1/2) =
     Some (Inr (0, \<lparr>heap = (\<lambda>_. [0, 1])(0 := [0, 1/2]),
       myLine = \<lparr>tracker = standin_tracker, record_last_track = standin_tracker (1/2) 0 1\<rparr>\<rparr>)) \<and>
   record_last_track (myLine (standin_state [0, 1])) = \<lparr>tbt_x = [], tbt_px = []\<rparr> \<and>
   standin_tracker (1/2) 0 1 = \<lparr>tbt_x = [[1/2]], tbt_px = [[0]]\<rparr>"
proof -
  have "record_last_track (myLine (standin_state [0, 1])) = \<lparr>tbt_x = [], tbt_px = []\<rparr>"
    by (simp add: standin_state_def)
  moreover have "standin_tracker (1/2) 0 1 = \<lparr>tbt_x = [[1/2]], tbt_px = [[0]]\<rparr>"
    by (simp add: standin_tracker_def)
  ultimately show ?thesis
    using standin_run_0_1 by (intro conjI)
qed

section \<open>First index of the least and of the greatest entry\<close>

lemma argmax_loop_spec:
  assumes "length pre = i" "best < i" "bv = pre ! best"
    "\<forall>j<i. pre ! j \<le> bv" "\<forall>j<best. pre ! j < bv"
  shows "argmax_loop vs i best bv < length (pre @ vs) \<and>
    (\<forall>j<length (pre @ vs). (pre @ vs) ! j \<le> (pre @ vs) ! argmax_loop vs i best bv) \<and>
    (\<forall>j<argmax_loop vs i best bv. (pre @ vs) ! j < (pre @ vs) ! argmax_loop vs i best bv)"
  using assms
proof (induction vs arbitrary: pre i best bv)
  case Nil
  then show ?case by auto
next
  case (Cons v vs)
  show ?case
  proof (cases "bv < v")
    case True
    have "argmax_loop vs (Suc i) i v < length ((pre @ [v]) @ vs) \<and>
      (\<forall>j<length ((pre @ [v]) @ vs). ((pre @ [v]) @ vs) ! j \<le> ((pre @ [v]) @ vs) ! argmax_loop vs (Suc i) i v) \<and>
      (\<forall>j<argmax_loop vs (Suc i) i v. ((pre @ [v]) @ vs) ! j < ((pre @ [v]) @ vs) ! argmax_loop vs (Suc i) i v)"
    proof (rule Cons.IH)
      show "length (pre @ [v]) = Suc i" using Cons.prems by simp
      show "i < Suc i" by simp
      show "v = (pre @ [v]) ! i" using Cons.prems by (simp add: nth_append)
      show "\<forall>j<Suc i. (pre @ [v]) ! j \<le> v"
        using Cons.prems True by (auto simp: nth_append less_Suc_eq intro: less_imp_le order_trans)
      show "\<forall>j<i. (pre @ [v]) ! j < v"
        using Cons.prems True by (auto simp: nth_append intro: le_less_trans)
    qed
    with True show ?thesis by simp
  next
    case False
    have "argmax_loop vs (Suc i) best bv < length ((pre @ [v]) @ vs) \<and>
      (\<forall>j<length ((pre @ [v]) @ vs). ((pre @ [v]) @ vs) ! j \<le> ((pre @ [v]) @ vs) ! argmax_loop vs (Suc i) best bv) \<and>
      (\<forall>j<argmax_loop vs (Suc i) best bv. ((pre @ [v]) @ vs) ! j < ((pre @ [v]) @ vs) ! argmax_loop vs (Suc i) best bv)"
    proof (rule Cons.IH)
      show "length (pre @ [v]) = Suc i" using Cons.prems by simp
      show "best < Suc i" using Cons.prems by simp
      show "bv = (pre @ [v]) ! best" using Cons.prems by (simp add: nth_append)
      show "\<forall>j<Suc i. (pre @ [v]) ! j \<le> bv"
        using Cons.prems False by (auto simp: nth_append less_Suc_eq)
      show "\<forall>j<best. (pre @ [v]) ! j < bv"
        using Cons.prems by (auto simp: nth_append)
    qed
    with False show ?thesis by simp
  qed
qed

lemma argmax_spec:
  assumes "a \<noteq> []"
  shows "\<exists>i. argmax a = Inr i \<and> i < length a \<and> (\<forall>j<length a. a ! j \<le> a ! i) \<and>
    (\<forall>j<i. a ! j < a ! i)"
proof -
  from assms obtain v vs where a: "a = v # vs" by (cases a) auto
  have "argmax_loop vs 1 0 v < length ([v] @ vs) \<and>
    (\<forall>j<length ([v] @ vs). ([v] @ vs) ! j \<le> ([v] @ vs) ! argmax_loop vs 1 0 v) \<and>
    (\<forall>j<argmax_loop vs 1 0 v. ([v] @ vs) ! j < ([v] @ vs) ! argmax_loop vs 1 0 v)"
    by (rule argmax_loop_spec) auto
  then show ?thesis by (simp add: a argmax_def)
qed

lemma argmax_eqI:
  assumes "i < length a" "\<forall>j<length a. a ! j \<le> a ! i" "\<forall>j<i. a ! j < a ! i"
  shows "argmax a = Inr i"
proof -
  from assms(1) have "a \<noteq> []" by auto
  from argmax_spec [OF this] obtain k where k: "argmax a = Inr k" "k < length a"
    "\<forall>j<length a. a ! j \<le> a ! k" "\<forall>j<k. a ! j < a ! k" by blast
  have "\<not> k < i" using assms k by (metis not_le)
  moreover have "\<not> i < k" using assms k by (metis not_le)
  ultimately show ?thesis using k by simp
qed

lemma argmin_loop_neg: "argmin_loop vs i best bv = argmax_loop (map uminus vs) i best (- bv)"
  by (induction vs arbitrary: i best bv) auto

lemma argmin_neg: "argmin a = argmax (map uminus a)"
  by (cases a) (simp_all add: argmin_def argmax_def argmin_loop_neg)

lemma argmin_spec:
  assumes "a \<noteq> []"
  shows "\<exists>i. argmin a = Inr i \<and> i < length a \<and> (\<forall>j<length a. a ! i \<le> a ! j) \<and>
    (\<forall>j<i. a ! i < a ! j)"
proof -
  from assms have "map uminus a \<noteq> []" by simp
  from argmax_spec [OF this] show ?thesis
    by (auto simp: argmin_neg)
qed

lemma argmin_Inr:
  assumes "argmin a = Inr i"
  shows "i < length a \<and> (\<forall>j<length a. a ! i \<le> a ! j) \<and> (\<forall>j<i. a ! i < a ! j)"
proof -
  from assms have "a \<noteq> []" by (auto simp: argmin_def)
  from argmin_spec [OF this] assms show ?thesis by auto
qed

section \<open>The septum fit\<close>

lemma getitem_plus3:
  "getitem a (int i + 3) = (if i + 3 < length a then Inr (a ! (i + 3)) else Inl IndexError)"
  by (auto simp: getitem_def nat_add_distrib)

lemma getitem_minus3:
  assumes "i < length a"
  shows "getitem a (int i - 3) =
    (if 3 \<le> i then Inr (a ! (i - 3))
     else if 3 \<le> length a + i then Inr (a ! (length a + i - 3))
     else Inl IndexError)"
proof -
  have "nat (int i - 3) = i - 3" by simp
  moreover have "nat (int (length a) + (int i - 3)) = length a + i - 3" by simp
  ultimately show ?thesis using assms by (auto simp: getitem_def)
qed

lemma polyfit_deg1_not_IndexError: "polyfit_deg1 xa xb ya yb \<noteq> Inl IndexError"
  by (simp add: polyfit_deg1_def)

lemma separatrix_unfold:
  assumes "tbt_x rec_sep = xs # xr" "tbt_px rec_sep = pxs # pr"
    "argmin (map (\<lambda>v. \<bar>v - xBoundary\<bar>) xs) = Inr i"
  shows "separatrix_at_septum rec_sep xBoundary =
    bind (getitem xs (int i + 3)) (\<lambda>xa.
    bind (getitem xs (int i - 3)) (\<lambda>xb.
    bind (getitem pxs (int i + 3)) (\<lambda>ya.
    bind (getitem pxs (int i - 3)) (\<lambda>yb.
    bind (polyfit_deg1 xa xb ya yb) (\<lambda>poly.
    Inr \<lparr>slope = poly ! 0, px_at_septum = polyval poly xBoundary,
         closer_turn = i, poly_sep = poly\<rparr>)))))"
  using assms by (simp add: separatrix_at_septum_def row0_def bind_def)

text \<open>
  Where the function raises: for position and momentum rows of the same length and the
  closest turn \<open>i\<close>, the result is IndexError exactly when \<open>i + 3\<close> is past the last turn.
\<close>

lemma separatrix_index_error_iff:
  assumes x: "tbt_x rec_sep = xs # xr" and px: "tbt_px rec_sep = pxs # pr"
    and len: "length pxs = length xs"
    and i: "argmin (map (\<lambda>v. \<bar>v - xBoundary\<bar>) xs) = Inr i"
  shows "separatrix_at_septum rec_sep xBoundary = Inl IndexError \<longleftrightarrow> length xs \<le> i + 3"
proof -
  from argmin_Inr [OF i] have il: "i < length xs" by simp
  show ?thesis
  proof (cases "length xs \<le> i + 3")
    case True
    then show ?thesis
      by (simp add: separatrix_unfold [OF x px i] getitem_plus3 bind_def)
  next
    case False
    then have "separatrix_at_septum rec_sep xBoundary =
      bind (polyfit_deg1 (xs ! (i + 3)) (if 3 \<le> i then xs ! (i - 3) else xs ! (length xs + i - 3))
             (pxs ! (i + 3)) (if 3 \<le> i then pxs ! (i - 3) else pxs ! (length xs + i - 3)))
        (\<lambda>poly. Inr \<lparr>slope = poly ! 0, px_at_septum = polyval poly xBoundary,
         closer_turn = i, poly_sep = poly\<rparr>)"
      using il len
      by (simp add: separatrix_unfold [OF x px i] getitem_plus3 getitem_minus3 bind_def)
    then show ?thesis using False polyfit_deg1_not_IndexError
      by (auto simp: bind_def split: sum.splits)
  qed
qed

text \<open>
  C4. When the closest turn is within three turns of either end of the record, reading
  the samples three turns after and three turns before it must fail with an out-of-range
  error. The code does so at the end of the record only. On the seven turns below the
  closest turn to \<open>0.035\<close> is turn 0: the index \<open>0 - 3\<close> is read from the end of the
  record, as turn 4, and the function returns a fit through the turns 3 and 4, none of
  which is a passage before turn 0. On the same record the closest turn to \<open>6\<close> is turn 6,
  and the read at \<open>6 + 3\<close> raises IndexError.
\<close>

theorem separatrix_fit_at_record_start:
  "argmin (map (\<lambda>v. \<bar>v - 35/1000\<bar>) [0, 1, 2, 3, 4, 5, 6]) = Inr 0 \<and>
   getitem [0, 1, 2, 3, 4, 5, 6 :: real] (int 0 - 3) = Inr 4 \<and>
   separatrix_at_septum \<lparr>tbt_x = [[0, 1, 2, 3, 4, 5, 6]], tbt_px = [[0, 2, 4, 6, 8, 10, 12]]\<rparr>
     (35/1000)
    = Inr \<lparr>slope = 2, px_at_septum = 70/1000, closer_turn = 0, poly_sep = [2, 0]\<rparr> \<and>
   argmin (map (\<lambda>v. \<bar>v - 6\<bar>) [0, 1, 2, 3, 4, 5, 6]) = Inr 6 \<and>
   separatrix_at_septum \<lparr>tbt_x = [[0, 1, 2, 3, 4, 5, 6]], tbt_px = [[0, 2, 4, 6, 8, 10, 12]]\<rparr> 6
    = Inl IndexError"
  by (simp add: separatrix_at_septum_def row0_def bind_def argmin_def getitem_def
      polyfit_deg1_def polyval_def)

text \<open>
  C10. For a recording of \<open>n \<ge> 4\<close> turns whose closest turn \<open>i\<close> has \<open>i < 3\<close> and
  \<open>i + 3 \<le> n - 1\<close>, no IndexError is raised: the sample three turns before is read by
  negative index from position \<open>n + i - 3\<close>, and the line is fitted through the turns at
  indices \<open>i + 3\<close> and \<open>n + i - 3\<close>.
\<close>

theorem separatrix_wraps_negative_index:
  assumes x: "tbt_x rec_sep = xs # xr" and px: "tbt_px rec_sep = pxs # pr"
    and len: "length pxs = length xs"
    and i: "argmin (map (\<lambda>v. \<bar>v - xBoundary\<bar>) xs) = Inr i"
    and n: "4 \<le> length xs" and i3: "i < 3" and after: "i + 3 \<le> length xs - 1"
  shows "separatrix_at_septum rec_sep xBoundary \<noteq> Inl IndexError \<and>
    separatrix_at_septum rec_sep xBoundary =
      bind (polyfit_deg1 (xs ! (i + 3)) (xs ! (length xs + i - 3))
             (pxs ! (i + 3)) (pxs ! (length xs + i - 3)))
        (\<lambda>poly. Inr \<lparr>slope = poly ! 0, px_at_septum = polyval poly xBoundary,
           closer_turn = i, poly_sep = poly\<rparr>)"
proof -
  from argmin_Inr [OF i] have il: "i < length xs" by simp
  have "separatrix_at_septum rec_sep xBoundary =
      bind (polyfit_deg1 (xs ! (i + 3)) (xs ! (length xs + i - 3))
             (pxs ! (i + 3)) (pxs ! (length xs + i - 3)))
        (\<lambda>poly. Inr \<lparr>slope = poly ! 0, px_at_septum = polyval poly xBoundary,
           closer_turn = i, poly_sep = poly\<rparr>)"
  proof -
    have lt: "i + 3 < length xs" using n after by arith
    have ge: "3 \<le> length xs + i" using n by arith
    show ?thesis
      using il len i3 lt ge
      by (simp add: separatrix_unfold [OF x px i] getitem_plus3 getitem_minus3 bind_def)
  qed
  then show ?thesis using polyfit_deg1_not_IndexError
    by (auto simp: bind_def split: sum.splits)
qed

theorem separatrix_wraps_negative_index_witness:
  "argmin (map (\<lambda>v. \<bar>v - 6\<bar>) [5, 6, 7, 8, 9, 10, 11, 12]) = Inr 1 \<and>
   separatrix_at_septum
     \<lparr>tbt_x = [[5, 6, 7, 8, 9, 10, 11, 12]], tbt_px = [[1, 2, 3, 4, 5, 6, 7, 8]]\<rparr> 6
     \<noteq> Inl IndexError \<and>
   separatrix_at_septum
     \<lparr>tbt_x = [[5, 6, 7, 8, 9, 10, 11, 12]], tbt_px = [[1, 2, 3, 4, 5, 6, 7, 8]]\<rparr> 6 =
     bind (polyfit_deg1 9 11 5 7)
       (\<lambda>poly. Inr \<lparr>slope = poly ! 0, px_at_septum = polyval poly 6,
           closer_turn = 1, poly_sep = poly\<rparr>)"
proof -
  let ?r = "\<lparr>tbt_x = [[5, 6, 7, 8, 9, 10, 11, 12]], tbt_px = [[1, 2, 3, 4, 5, 6, 7, 8 :: real]]\<rparr>"
  have x: "tbt_x ?r = [5, 6, 7, 8, 9, 10, 11, 12] # []"
    and px: "tbt_px ?r = [1, 2, 3, 4, 5, 6, 7, 8] # []"
    by simp_all
  have len: "length [1, 2, 3, 4, 5, 6, 7, 8 :: real] = length [5, 6, 7, 8, 9, 10, 11, 12 :: real]"
    by simp
  have i: "argmin (map (\<lambda>v. \<bar>v - 6\<bar>) [5, 6, 7, 8, 9, 10, 11, 12]) = Inr 1"
    by (simp add: argmin_def)
  have n: "4 \<le> length [5, 6, 7, 8, 9, 10, 11, 12 :: real]"
    and i3: "(1::nat) < 3"
    and after: "1 + 3 \<le> length [5, 6, 7, 8, 9, 10, 11, 12 :: real] - 1"
    by simp_all
  have e: "[5, 6, 7, 8, 9, 10, 11, 12 :: real] ! (1 + 3) = 9"
    "[5, 6, 7, 8, 9, 10, 11, 12 :: real] ! (length [5, 6, 7, 8, 9, 10, 11, 12 :: real] + 1 - 3) = 11"
    "[1, 2, 3, 4, 5, 6, 7, 8 :: real] ! (1 + 3) = 5"
    "[1, 2, 3, 4, 5, 6, 7, 8 :: real] ! (length [5, 6, 7, 8, 9, 10, 11, 12 :: real] + 1 - 3) = 7"
    by simp_all
  note w = separatrix_wraps_negative_index [OF x px len i n i3 after]
  have c1: "separatrix_at_septum ?r 6 \<noteq> Inl IndexError"
    using w by blast
  have c2: "separatrix_at_septum ?r 6 =
     bind (polyfit_deg1 9 11 5 7)
       (\<lambda>poly. Inr \<lparr>slope = poly ! 0, px_at_septum = polyval poly 6,
           closer_turn = 1, poly_sep = poly\<rparr>)"
    using w [unfolded e] by blast
  show ?thesis
    using i c1 c2 by (intro conjI)
qed

text \<open>
  C2 (as amended). For a recording whose samples lie on the line \<open>px = k * x + c\<close>, whose
  closest turn \<open>i\<close> has a turn \<open>i + 3\<close>, and whose two sampled positions (at \<open>i + 3\<close> and at
  \<open>i - 3\<close>, read as Python reads a negative index) differ, the fit in exact arithmetic
  returns the slope \<open>k\<close>, the coefficients \<open>[k, c]\<close> and the momentum \<open>k * xBoundary + c\<close>
  at the septum; the closest turn is the first index that minimises the distance of the
  position to \<open>xBoundary\<close>.
\<close>

theorem separatrix_line_fit:
  assumes x: "tbt_x rec_sep = xs # xr" and px: "tbt_px rec_sep = pxs # pr"
    and line: "pxs = map (\<lambda>v. k * v + c) xs"
    and i: "argmin (map (\<lambda>v. \<bar>v - xBoundary\<bar>) xs) = Inr i"
    and xa: "getitem xs (int i + 3) = Inr xa" and xb: "getitem xs (int i - 3) = Inr xb"
    and ne: "xa \<noteq> xb"
  shows "\<exists>r. separatrix_at_septum rec_sep xBoundary = Inr r \<and>
    slope r = k \<and> px_at_septum r = k * xBoundary + c \<and> poly_sep r = [k, c] \<and>
    closer_turn r = i \<and> i < length xs \<and>
    (\<forall>j<length xs. \<bar>xs ! i - xBoundary\<bar> \<le> \<bar>xs ! j - xBoundary\<bar>)"
proof -
  from argmin_Inr [OF i] have il: "i < length xs"
    and least: "\<forall>j<length xs. \<bar>xs ! i - xBoundary\<bar> \<le> \<bar>xs ! j - xBoundary\<bar>"
    by auto
  have gmap: "getitem (map f a) j = (case getitem a j of Inl e \<Rightarrow> Inl e | Inr v \<Rightarrow> Inr (f v))"
    for f :: "real \<Rightarrow> real" and a j
    by (auto simp: getitem_def)
  have ya: "getitem pxs (int i + 3) = Inr (k * xa + c)"
    and yb: "getitem pxs (int i - 3) = Inr (k * xb + c)"
    using xa xb by (simp_all add: line gmap)
  have fit: "polyfit_deg1 xa xb (k * xa + c) (k * xb + c) = Inr [k, c]"
  proof -
    have "(k * xa + c - (k * xb + c)) / (xa - xb) = k"
      using ne by (simp add: field_simps)
    then show ?thesis using ne by (simp add: polyfit_deg1_def)
  qed
  have "separatrix_at_septum rec_sep xBoundary =
    Inr \<lparr>slope = k, px_at_septum = k * xBoundary + c, closer_turn = i, poly_sep = [k, c]\<rparr>"
    by (simp add: separatrix_unfold [OF x px i] xa xb ya yb fit bind_def polyval_def)
  with il least show ?thesis by simp
qed

theorem separatrix_line_fit_witness:
  "[1, 102/100, 104/100, 106/100, 108/100, 110/100, 112/100, 114/100]
     = map (\<lambda>v. 2 * v + 1) [0, 1/100, 2/100, 3/100, 4/100, 5/100, 6/100, 7/100 :: real] \<and>
   argmin (map (\<lambda>v. \<bar>v - 35/1000\<bar>) [0, 1/100, 2/100, 3/100, 4/100, 5/100, 6/100, 7/100])
     = Inr 3 \<and>
   getitem [0, 1/100, 2/100, 3/100, 4/100, 5/100, 6/100, 7/100 :: real] (int 3 + 3)
     = Inr (6/100) \<and>
   getitem [0, 1/100, 2/100, 3/100, 4/100, 5/100, 6/100, 7/100 :: real] (int 3 - 3) = Inr 0 \<and>
   (\<exists>r. separatrix_at_septum
       \<lparr>tbt_x = [[0, 1/100, 2/100, 3/100, 4/100, 5/100, 6/100, 7/100]],
        tbt_px = [[1, 102/100, 104/100, 106/100, 108/100, 110/100, 112/100, 114/100]]\<rparr>
       (35/1000) = Inr r \<and>
     slope r = 2 \<and> px_at_septum r = 2 * (35/1000) + 1 \<and> poly_sep r = [2, 1] \<and>
     closer_turn r = 3)"
proof -
  let ?xs = "[0, 1/100, 2/100, 3/100, 4/100, 5/100, 6/100, 7/100 :: real]"
  let ?pxs = "[1, 102/100, 104/100, 106/100, 108/100, 110/100, 112/100, 114/100 :: real]"
  let ?r = "\<lparr>tbt_x = [?xs], tbt_px = [?pxs]\<rparr>"
  have x: "tbt_x ?r = ?xs # []" and px: "tbt_px ?r = ?pxs # []"
    by simp_all
  have line: "?pxs = map (\<lambda>v. 2 * v + 1) ?xs" by simp
  have i: "argmin (map (\<lambda>v. \<bar>v - 35/1000\<bar>) ?xs) = Inr 3"
    by (simp add: argmin_def)
  have xa: "getitem ?xs (int 3 + 3) = Inr (6/100)"
    and xb: "getitem ?xs (int 3 - 3) = Inr 0"
    by (simp_all add: getitem_def)
  have ne: "(6/100 :: real) \<noteq> 0" by simp
  from separatrix_line_fit [OF x px line i xa xb ne]
  have "\<exists>r. separatrix_at_septum ?r (35/1000) = Inr r \<and>
     slope r = 2 \<and> px_at_septum r = 2 * (35/1000) + 1 \<and> poly_sep r = [2, 1] \<and>
     closer_turn r = 3"
    by blast
  with line i xa xb show ?thesis by (intro conjI)
qed

text \<open>
  C2 fails without the two conditions. Three turns on the line \<open>px = x\<close> have no turn
  \<open>i + 3\<close>, and the fit raises IndexError; seven turns at one and the same point lie on
  the lines \<open>px = 2\<close> and \<open>px = 2 * x\<close> alike, and the fit returns the slope \<open>1\<close>.
\<close>

theorem separatrix_line_fit_counterexample:
  "[0, 1, 2] = map (\<lambda>v. 1 * v + 0) [0, 1, 2 :: real] \<and>
   separatrix_at_septum \<lparr>tbt_x = [[0, 1, 2]], tbt_px = [[0, 1, 2]]\<rparr> (35/1000) = Inl IndexError"
  by (simp add: separatrix_at_septum_def row0_def bind_def argmin_def getitem_def
      polyfit_deg1_def polyval_def)

lemma separatrix_single_point:
  "[2, 2, 2, 2, 2, 2, 2] = map (\<lambda>v. 0 * v + 2) [1, 1, 1, 1, 1, 1, 1 :: real] \<and>
   [2, 2, 2, 2, 2, 2, 2] = map (\<lambda>v. 2 * v + 0) [1, 1, 1, 1, 1, 1, 1 :: real] \<and>
   separatrix_at_septum \<lparr>tbt_x = [[1, 1, 1, 1, 1, 1, 1]], tbt_px = [[2, 2, 2, 2, 2, 2, 2]]\<rparr>
     (35/1000)
    = Inr \<lparr>slope = 1, px_at_septum = 1035/1000, closer_turn = 0, poly_sep = [1, 1]\<rparr>"
  by (simp add: separatrix_at_septum_def row0_def bind_def argmin_def getitem_def
      polyfit_deg1_def polyval_def)

section \<open>The angular sort\<close>

lemma insertion_argsort_contract: "argsort_contract insertion_argsort"
  unfolding argsort_contract_def insertion_argsort_def by simp

lemma take_indices_perm:
  assumes "mset idx = mset [0..<length a]"
  shows "take_indices a idx = Inr (map ((!) a) idx)" and "mset (map ((!) a) idx) = mset a"
proof -
  from assms have "set idx = {0..<length a}"
    by (metis mset_eq_setD set_upt)
  then show "take_indices a idx = Inr (map ((!) a) idx)"
    by (auto simp: take_indices_def list_all_iff)
  have "mset (map ((!) a) idx) = image_mset ((!) a) (mset [0..<length a])"
    using assms by (metis mset_map)
  also have "\<dots> = mset (map ((!) a) [0..<length a])" by simp
  also have "\<dots> = mset a" by (simp add: map_nth)
  finally show "mset (map ((!) a) idx) = mset a" .
qed

lemma theta_of_eq:
  "length pxn = length xn \<Longrightarrow>
    theta_of xn pxn = Inr (map2 (\<lambda>a b. angle (Complex a b)) xn pxn)"
  by (simp add: theta_of_def broadcast2_def bind_def map_zip_map2 zip_map_fst_snd
      split_def)

lemma sort_unfold:
  assumes c: "argsort_contract argsort"
    and rows: "tbt_x tbt_triang = xs # xr" "tbt_px tbt_triang = pxs # pr"
      "x_norm nc_tbt_triang = xn # xnr" "px_norm nc_tbt_triang = pxn # pnr"
    and len: "length pxs = length xs" "length xn = length xs" "length pxn = length xs"
    and idx: "idx = argsort (map2 (\<lambda>a b. angle (Complex a b)) xn pxn)"
  shows "sort_stable_boundary_coordinates argsort tbt_triang nc_tbt_triang =
      Inr \<lparr>x_triang = map ((!) xs) idx, px_triang = map ((!) pxs) idx,
           x_norm_triang = map ((!) xn) idx, px_norm_triang = map ((!) pxn) idx\<rparr>"
    and "mset idx = mset [0..<length xs]"
    and "sorted (map ((!) (map2 (\<lambda>a b. angle (Complex a b)) xn pxn)) idx)"
proof -
  let ?theta = "map2 (\<lambda>a b. angle (Complex a b)) xn pxn"
  have n: "length ?theta = length xs" using len by simp
  from c have m: "mset idx = mset [0..<length xs]"
    and s: "sorted (map ((!) ?theta) idx)"
    unfolding argsort_contract_def idx using n by metis+
  show "mset idx = mset [0..<length xs]" by (rule m)
  show "sorted (map ((!) ?theta) idx)" by (rule s)
  have t: "take_indices xs idx = Inr (map ((!) xs) idx)"
    "take_indices pxs idx = Inr (map ((!) pxs) idx)"
    "take_indices xn idx = Inr (map ((!) xn) idx)"
    "take_indices pxn idx = Inr (map ((!) pxn) idx)"
    using m len by (simp_all add: take_indices_perm)
  have th: "theta_of xn pxn = Inr ?theta"
    using len by (simp add: theta_of_eq)
  show "sort_stable_boundary_coordinates argsort tbt_triang nc_tbt_triang =
      Inr \<lparr>x_triang = map ((!) xs) idx, px_triang = map ((!) pxs) idx,
           x_norm_triang = map ((!) xn) idx, px_norm_triang = map ((!) pxn) idx\<rparr>"
    unfolding sort_stable_boundary_coordinates_def idx
    by (simp add: rows row0_def bind_def th Let_def t [unfolded idx])
qed

lemma angle_axes:
  "angle (Complex 1 0) = 0" "angle (Complex 0 1) = pi / 2" "angle (Complex (- 1) 0) = pi"
  "angle (Complex 0 (- 1)) = - (pi / 2)" "angle (Complex 2 0) = 0"
  by (simp_all add: angle_def arctan2_def)

text \<open>
  C5. For a physical and a normalized recording of the same turns (each with a row 0,
  the four rows of equal length) and any sorting routine that meets numpy's contract,
  the function returns four arrays; the angles computed from the returned normalized
  position and momentum are in non-decreasing order, and each returned array has the
  same multiset of values as the corresponding input row.
\<close>

theorem sort_stable_boundary_coordinates_sorted_perm:
  assumes c: "argsort_contract argsort"
    and rows: "tbt_x tbt_triang = xs # xr" "tbt_px tbt_triang = pxs # pr"
      "x_norm nc_tbt_triang = xn # xnr" "px_norm nc_tbt_triang = pxn # pnr"
    and len: "length pxs = length xs" "length xn = length xs" "length pxn = length xs"
  shows "\<exists>r. sort_stable_boundary_coordinates argsort tbt_triang nc_tbt_triang = Inr r \<and>
    sorted (map2 (\<lambda>a b. angle (Complex a b)) (x_norm_triang r) (px_norm_triang r)) \<and>
    mset (x_triang r) = mset xs \<and> mset (px_triang r) = mset pxs \<and>
    mset (x_norm_triang r) = mset xn \<and> mset (px_norm_triang r) = mset pxn"
proof -
  define idx where "idx = argsort (map2 (\<lambda>a b. angle (Complex a b)) xn pxn)"
  note u = sort_unfold [OF c rows len idx_def]
  have lt: "\<forall>i\<in>set idx. i < length xs"
    using u(2) by (metis atLeastLessThan_iff mset_eq_setD set_upt)
  have "map2 (\<lambda>a b. angle (Complex a b)) (map ((!) xn) idx) (map ((!) pxn) idx) =
    map ((!) (map2 (\<lambda>a b. angle (Complex a b)) xn pxn)) idx"
    using lt len by (induction idx) auto
  with u(3) have "sorted (map2 (\<lambda>a b. angle (Complex a b)) (map ((!) xn) idx) (map ((!) pxn) idx))"
    by simp
  moreover have "mset (map ((!) xs) idx) = mset xs" "mset (map ((!) pxs) idx) = mset pxs"
    "mset (map ((!) xn) idx) = mset xn" "mset (map ((!) pxn) idx) = mset pxn"
    by (rule take_indices_perm, simp add: u(2) len)+
  ultimately show ?thesis using u(1) by simp
qed

theorem sort_stable_boundary_coordinates_sorted_perm_witness:
  "argsort_contract insertion_argsort \<and>
   (\<exists>r. sort_stable_boundary_coordinates insertion_argsort
       \<lparr>tbt_x = [[1, 2, 3, 4]], tbt_px = [[5, 6, 7, 8]]\<rparr>
       \<lparr>x_norm = [[- 1, 0, 1, 0]], px_norm = [[0, 1, 0, - 1]]\<rparr> = Inr r \<and>
    sorted (map2 (\<lambda>a b. angle (Complex a b)) (x_norm_triang r) (px_norm_triang r)) \<and>
    mset (x_triang r) = mset [1, 2, 3, 4] \<and> mset (px_triang r) = mset [5, 6, 7, 8] \<and>
    mset (x_norm_triang r) = mset [- 1, 0, 1, 0] \<and>
    mset (px_norm_triang r) = mset [0, 1, 0, - 1])"
proof -
  let ?t = "\<lparr>tbt_x = [[1, 2, 3, 4 :: real]], tbt_px = [[5, 6, 7, 8 :: real]]\<rparr>"
  let ?n = "\<lparr>x_norm = [[- 1, 0, 1, 0 :: real]], px_norm = [[0, 1, 0, - 1 :: real]]\<rparr>"
  have rows: "tbt_x ?t = [1, 2, 3, 4] # []" "tbt_px ?t = [5, 6, 7, 8] # []"
    "x_norm ?n = [- 1, 0, 1, 0] # []" "px_norm ?n = [0, 1, 0, - 1] # []"
    by simp_all
  have len: "length [5, 6, 7, 8 :: real] = length [1, 2, 3, 4 :: real]"
    "length [- 1, 0, 1, 0 :: real] = length [1, 2, 3, 4 :: real]"
    "length [0, 1, 0, - 1 :: real] = length [1, 2, 3, 4 :: real]"
    by simp_all
  show ?thesis
    using sort_stable_boundary_coordinates_sorted_perm
      [OF insertion_argsort_contract rows len] insertion_argsort_contract
    by (intro conjI)
qed

lemma perm_strict_identity:
  fixes keys :: "real list"
  assumes m: "mset idx = mset [0..<length keys]"
    and s: "sorted (map ((!) keys) idx)"
    and strict: "sorted_wrt (<) keys"
  shows "idx = [0..<length keys]"
proof -
  have d: "distinct idx"
    using m by (metis distinct_upt mset_eq_imp_distinct_iff)
  have set: "set idx = {0..<length keys}"
    using m by (metis mset_eq_setD set_upt)
  have len: "length idx = length keys"
    using m by (metis length_upt mset_eq_length minus_nat.diff_0)
  have "sorted_wrt (<) idx"
  proof (subst sorted_wrt_iff_nth_less, intro allI impI)
    fix j k assume jk: "j < k" "k < length idx"
    then have in_range: "idx ! j < length keys" "idx ! k < length keys"
      using set by (metis atLeastLessThan_iff nth_mem order.strict_trans)+
    have ne: "idx ! j \<noteq> idx ! k"
      using d jk by (simp add: nth_eq_iff_index_eq)
    have le: "keys ! (idx ! j) \<le> keys ! (idx ! k)"
      using s jk by (simp add: sorted_iff_nth_mono)
    show "idx ! j < idx ! k"
    proof (rule ccontr)
      assume "\<not> idx ! j < idx ! k"
      with ne have "idx ! k < idx ! j" by simp
      with strict in_range have "keys ! (idx ! k) < keys ! (idx ! j)"
        by (simp add: sorted_wrt_iff_nth_less)
      with le show False by simp
    qed
  qed
  then have "sorted idx" "distinct idx"
    using d by (simp_all add: strict_sorted_iff)
  moreover have "sorted [0..<length keys]" "distinct [0..<length keys]" by simp_all
  ultimately show ?thesis
    using set by (metis sorted_distinct_set_unique set_upt)
qed

text \<open>
  Sorted input without ties: when the angles are strictly increasing, every sorting
  routine that meets numpy's contract returns the indices in order, and the function
  returns the four input rows unchanged. For samples that share an angle the contract
  leaves their order open.
\<close>

lemma sort_strictly_increasing_unchanged:
  assumes c: "argsort_contract argsort"
    and rows: "tbt_x tbt_triang = xs # xr" "tbt_px tbt_triang = pxs # pr"
      "x_norm nc_tbt_triang = xn # xnr" "px_norm nc_tbt_triang = pxn # pnr"
    and len: "length pxs = length xs" "length xn = length xs" "length pxn = length xs"
    and strict: "sorted_wrt (<) (map2 (\<lambda>a b. angle (Complex a b)) xn pxn)"
  shows "sort_stable_boundary_coordinates argsort tbt_triang nc_tbt_triang =
    Inr \<lparr>x_triang = xs, px_triang = pxs, x_norm_triang = xn, px_norm_triang = pxn\<rparr>"
proof -
  define idx where "idx = argsort (map2 (\<lambda>a b. angle (Complex a b)) xn pxn)"
  note u = sort_unfold [OF c rows len idx_def]
  have n: "length (map2 (\<lambda>a b. angle (Complex a b)) xn pxn) = length xs"
    using len by simp
  have "idx = [0..<length (map2 (\<lambda>a b. angle (Complex a b)) xn pxn)]"
    by (rule perm_strict_identity) (use u n strict in simp_all)
  then have i: "idx = [0..<length xs]" using n by simp
  have "map ((!) xs) idx = xs" "map ((!) pxs) idx = pxs" "map ((!) xn) idx = xn"
    "map ((!) pxn) idx = pxn"
    using len map_nth [of xs] map_nth [of pxs] map_nth [of xn] map_nth [of pxn]
    by (simp_all add: i)
  with u(1) show ?thesis by simp
qed

section \<open>The fixed-point search\<close>

lemma rot_plus: "exp (\<i> * 2 / 3 * of_real pi) = cis (2 * pi / 3)"
proof -
  have "\<i> * 2 / 3 * of_real pi = \<i> * of_real (2 * pi / 3)" by simp
  then show ?thesis by (simp only: cis_conv_exp)
qed

lemma rot_minus: "exp (- \<i> * 2 / 3 * of_real pi) = cis (- (2 * pi / 3))"
proof -
  have "- \<i> * 2 / 3 * of_real pi = \<i> * of_real (- (2 * pi / 3))" by simp
  then show ?thesis by (simp only: cis_conv_exp)
qed

lemma cos_120: "cos (2 * pi / 3) = - (1 / 2)"
proof -
  have "cos (2 * pi / 3) = cos (pi - pi / 3)" by (simp add: field_simps)
  also have "\<dots> = - cos (pi / 3)" by (rule cos_pi_minus)
  finally show ?thesis by (simp add: cos_60)
qed

lemma sin_120: "sin (2 * pi / 3) = sqrt 3 / 2"
proof -
  have "sin (2 * pi / 3) = sin (pi - pi / 3)" by (simp add: field_simps)
  also have "\<dots> = sin (pi / 3)" by (rule sin_pi_minus)
  finally show ?thesis by (simp add: sin_60)
qed

lemma cis_120: "cis (2 * pi / 3) = Complex (- (1 / 2)) (sqrt 3 / 2)"
  by (simp add: complex_eq_iff cos_120 sin_120)

lemma cis_240: "cis (- (2 * pi / 3)) = Complex (- (1 / 2)) (- (sqrt 3 / 2))"
  by (simp add: complex_eq_iff cos_120 sin_120)

lemma mask_fp_nth:
  "j < length z \<Longrightarrow> mask_fp z zf rot thr ! j = in_disk (zf * rot) (thr * cmod zf) (z ! j)"
  by (simp add: mask_fp_def in_disk_def)

lemma masked_nth:
  "j < length r \<Longrightarrow> length m = length r \<Longrightarrow>
    masked r m ! j = (if m ! j then r ! j else 0)"
  by (simp add: masked_def)

lemma length_masked: "length m = length r \<Longrightarrow> length (masked r m) = length r"
  by (simp add: masked_def)

lemma length_mask_fp: "length (mask_fp z zf rot thr) = length z"
  by (simp add: mask_fp_def)

lemma take_indices_three:
  "i1 < length a \<Longrightarrow> i2 < length a \<Longrightarrow> i3 < length a \<Longrightarrow>
    take_indices a [i1, i2, i3] = Inr [a ! i1, a ! i2, a ! i3]"
  by (simp add: take_indices_def)

lemma find_unfold:
  assumes rows: "x_norm nc = xn # xnr" "px_norm nc = pxn # pnr"
      "tbt_x tb = xp # xpr" "tbt_px tb = pxp # ppr"
    and len: "length pxn = length xn" "length xp = length xn" "length pxp = length xn"
    and z: "z = map2 Complex xn pxn"
    and i1: "argmax (map cmod z) = Inr i1"
    and i2: "argmax (masked (map cmod z) (mask_fp z (z ! i1) (cis (2 * pi / 3)) threshold)) = Inr i2"
    and i3: "argmax (masked (map cmod z) (mask_fp z (z ! i1) (cis (- (2 * pi / 3))) threshold)) = Inr i3"
    and lt: "i1 < length xn" "i2 < length xn" "i3 < length xn"
  shows "find_fixed_points tb nc threshold =
    Inr \<lparr>x_norm_fp = [xn ! i1, xn ! i2, xn ! i3], px_norm_fp = [pxn ! i1, pxn ! i2, pxn ! i3],
         x_fp = [xp ! i1, xp ! i2, xp ! i3], px_fp = [pxp ! i1, pxp ! i2, pxp ! i3]\<rparr>"
proof -
  have bz: "broadcast2 Complex xn pxn = Inr z"
    using len by (simp add: broadcast2_def z)
  have bp: "broadcast2 Complex xp pxp = Inr (map2 Complex xp pxp)"
    using len by (simp add: broadcast2_def)
  have lz: "length z = length xn" using len by (simp add: z)
  have tz: "take_indices z [i1, i2, i3] = Inr [z ! i1, z ! i2, z ! i3]"
    using lt lz by (simp add: take_indices_three)
  have tp: "take_indices (map2 Complex xp pxp) [i1, i2, i3] =
    Inr [Complex (xp ! i1) (pxp ! i1), Complex (xp ! i2) (pxp ! i2), Complex (xp ! i3) (pxp ! i3)]"
    using lt len by (simp add: take_indices_three)
  have zn: "z ! i1 = Complex (xn ! i1) (pxn ! i1)" "z ! i2 = Complex (xn ! i2) (pxn ! i2)"
    "z ! i3 = Complex (xn ! i3) (pxn ! i3)"
    using lt len by (simp_all add: z)
  show ?thesis
    unfolding find_fixed_points_def rot_plus rot_minus
    by (simp only: rows row0_def list.case bind_def sum.case bz bp Let_def i1 i2 i3 tz tp)
      (simp add: zn)
qed


lemma argmax_masked_none:
  assumes "length m = length r" "r \<noteq> []" "True \<notin> set m"
  shows "argmax (masked r m) = Inr 0"
proof (rule argmax_eqI)
  have z: "masked r m ! j = 0" if "j < length r" for j
    using that assms by (auto simp: masked_nth in_set_conv_nth)
  show "0 < length (masked r m)" using assms by (simp add: length_masked)
  show "\<forall>j<length (masked r m). masked r m ! j \<le> masked r m ! 0"
    using assms z by (simp add: length_masked)
  show "\<forall>j<0. masked r m ! j < masked r m ! 0" by simp
qed

lemma argmax_masked_some:
  assumes len: "length m = length r"
    and j0: "j0 < length r" "m ! j0" "0 < r ! j0"
  shows "\<exists>i. argmax (masked r m) = Inr i \<and> i < length r \<and> m ! i \<and>
    (\<forall>j<length r. m ! j \<longrightarrow> r ! j \<le> r ! i)"
proof -
  have ne: "masked r m \<noteq> []" using len j0 by (auto simp: masked_def)
  from argmax_spec [OF ne] obtain i where i: "argmax (masked r m) = Inr i"
    "i < length r" "\<forall>j<length r. masked r m ! j \<le> masked r m ! i"
    using len by (auto simp: length_masked)
  have "masked r m ! j0 = r ! j0" using j0 len by (simp add: masked_nth)
  with i(3) j0 have pos: "0 < masked r m ! i" by (metis less_le_trans)
  then have mi: "m ! i" using i(2) len by (auto simp: masked_nth split: if_splits)
  have "r ! j \<le> r ! i" if "j < length r" "m ! j" for j
  proof -
    have "masked r m ! j = r ! j" "masked r m ! i = r ! i"
      using that mi i(2) len by (simp_all add: masked_nth)
    with i(3) that show ?thesis by metis
  qed
  with i mi show ?thesis by blast
qed

lemma cmod_one_minus_cis_120: "1 \<le> cmod (1 - cis (2 * pi / 3))"
proof -
  have "\<bar>Re (1 - cis (2 * pi / 3))\<bar> \<le> cmod (1 - cis (2 * pi / 3))"
    by (rule abs_Re_le_cmod)
  then show ?thesis by (simp add: cos_120)
qed

lemma cmod_one_minus_cis_240: "1 \<le> cmod (1 - cis (- (2 * pi / 3)))"
proof -
  have "\<bar>Re (1 - cis (- (2 * pi / 3)))\<bar> \<le> cmod (1 - cis (- (2 * pi / 3)))"
    by (rule abs_Re_le_cmod)
  then show ?thesis by (simp add: cos_120)
qed

lemma cmod_cis_240_minus_120: "1 \<le> cmod (cis (- (2 * pi / 3)) - cis (2 * pi / 3))"
proof -
  have "\<bar>Im (cis (- (2 * pi / 3)) - cis (2 * pi / 3))\<bar>
      \<le> cmod (cis (- (2 * pi / 3)) - cis (2 * pi / 3))"
    by (rule abs_Im_le_cmod)
  moreover have "\<bar>Im (cis (- (2 * pi / 3)) - cis (2 * pi / 3))\<bar> = sqrt 3"
    by (simp add: sin_120)
  moreover have "1 \<le> sqrt 3" by simp
  ultimately show ?thesis by linarith
qed

lemma far_apart:
  assumes "cmod w = 1"
  shows "1 \<le> cmod (w - w * cis (2 * pi / 3))"
    "1 \<le> cmod (w - w * cis (- (2 * pi / 3)))"
    "1 \<le> cmod (w * cis (- (2 * pi / 3)) - w * cis (2 * pi / 3))"
    "1 \<le> cmod (w * cis (2 * pi / 3) - w * cis (- (2 * pi / 3)))"
proof -
  have "w - w * cis (2 * pi / 3) = w * (1 - cis (2 * pi / 3))"
    by (simp add: algebra_simps)
  then show "1 \<le> cmod (w - w * cis (2 * pi / 3))"
    using assms cmod_one_minus_cis_120 by (simp add: norm_mult)
  have "w - w * cis (- (2 * pi / 3)) = w * (1 - cis (- (2 * pi / 3)))"
    by (simp add: algebra_simps)
  then show "1 \<le> cmod (w - w * cis (- (2 * pi / 3)))"
    using assms cmod_one_minus_cis_240 by (simp add: norm_mult)
  have "w * cis (- (2 * pi / 3)) - w * cis (2 * pi / 3)
      = w * (cis (- (2 * pi / 3)) - cis (2 * pi / 3))"
    by (simp add: algebra_simps)
  then show *: "1 \<le> cmod (w * cis (- (2 * pi / 3)) - w * cis (2 * pi / 3))"
    using assms cmod_cis_240_minus_120 by (simp add: norm_mult)
  then show "1 \<le> cmod (w * cis (2 * pi / 3) - w * cis (- (2 * pi / 3)))"
    by (simp add: norm_minus_commute)
qed


lemma argmax_single_peak:
  assumes "i < length xs" "0 < xs ! i" "\<forall>j<length xs. j \<noteq> i \<longrightarrow> xs ! j = 0"
  shows "argmax xs = Inr i"
proof (rule argmax_eqI)
  show "i < length xs" by fact
  show "\<forall>j<length xs. xs ! j \<le> xs ! i"
    using assms by (metis less_imp_le order_refl)
  show "\<forall>j<i. xs ! j < xs ! i"
    using assms by (metis less_trans nat_neq_iff)
qed

lemma disk_only:
  assumes t: "t < length z" "cmod (z ! t) = 1" "z ! t = zf * rot"
    and zf: "cmod zf = 1" and thr: "0 < thr"
    and far: "\<forall>j<length z. j \<noteq> t \<longrightarrow> thr \<le> cmod (z ! j - zf * rot)"
  shows "argmax (masked (map cmod z) (mask_fp z zf rot thr)) = Inr t"
proof (rule argmax_single_peak)
  let ?M = "masked (map cmod z) (mask_fp z zf rot thr)"
  have nth: "?M ! j = (if in_disk (zf * rot) (thr * cmod zf) (z ! j) then cmod (z ! j) else 0)"
    if "j < length z" for j
    using that by (simp add: masked_nth length_mask_fp mask_fp_nth)
  show "t < length ?M" using t by (simp add: length_masked length_mask_fp)
  show "0 < ?M ! t" using t zf thr by (simp add: nth in_disk_def)
  show "\<forall>j<length ?M. j \<noteq> t \<longrightarrow> ?M ! j = 0"
    using far zf by (auto simp: nth in_disk_def length_masked length_mask_fp)
qed

lemma three_fold:
  assumes abc: "a < length z" "b < length z" "c < length z" "a < b" "a < c"
    and za: "cmod (z ! a) = 1"
    and zb: "z ! b = z ! a * cis (2 * pi / 3)"
    and zc: "z ! c = z ! a * cis (- (2 * pi / 3))"
    and others: "\<forall>j<length z. j \<noteq> a \<and> j \<noteq> b \<and> j \<noteq> c \<longrightarrow> cmod (z ! j) \<le> eps"
    and thr: "0 < thr" "0 \<le> eps" "thr + eps \<le> 1"
  shows "argmax (map cmod z) = Inr a"
    and "argmax (masked (map cmod z) (mask_fp z (z ! a) (cis (2 * pi / 3)) thr)) = Inr b"
    and "argmax (masked (map cmod z) (mask_fp z (z ! a) (cis (- (2 * pi / 3))) thr)) = Inr c"
proof -
  have rb: "cmod (z ! b) = 1" and rc: "cmod (z ! c) = 1"
    using za by (simp_all add: zb zc norm_mult)
  have small: "cmod (z ! j) < 1" if "j < length z" "j \<noteq> a" "j \<noteq> b" "j \<noteq> c" for j
    using others that thr by (metis le_less_trans less_add_same_cancel2 linorder_not_le)
  show "argmax (map cmod z) = Inr a"
  proof (rule argmax_eqI)
    show "a < length (map cmod z)" using abc by simp
    show "\<forall>j<length (map cmod z). map cmod z ! j \<le> map cmod z ! a"
    proof (intro allI impI)
      fix j assume "j < length (map cmod z)"
      then have j: "j < length z" by simp
      have "cmod (z ! j) \<le> 1"
        using small [OF j] za rb rc by (cases "j = a \<or> j = b \<or> j = c") auto
      then show "map cmod z ! j \<le> map cmod z ! a" using j abc za by simp
    qed
    show "\<forall>j<a. map cmod z ! j < map cmod z ! a"
    proof (intro allI impI)
      fix j assume "j < a"
      then have "j < length z" "j \<noteq> a" "j \<noteq> b" "j \<noteq> c" using abc by auto
      then have "cmod (z ! j) < 1" by (rule small)
      then show "map cmod z ! j < map cmod z ! a"
        using \<open>j < length z\<close> abc za by simp
    qed
  qed
  have out: "thr \<le> cmod (z ! j - w)"
    if "j < length z" "j \<noteq> a" "j \<noteq> b" "j \<noteq> c" "cmod w = 1" for j w
  proof -
    have "cmod w - cmod (z ! j) \<le> cmod (w - z ! j)" by (rule norm_triangle_ineq2)
    moreover have "cmod (z ! j) \<le> eps" using others that by blast
    ultimately show ?thesis using that(5) thr by (simp add: norm_minus_commute)
  qed
  have thr1: "thr \<le> 1" using thr by linarith
  show "argmax (masked (map cmod z) (mask_fp z (z ! a) (cis (2 * pi / 3)) thr)) = Inr b"
  proof (rule disk_only)
    show "b < length z" "cmod (z ! b) = 1" "z ! b = z ! a * cis (2 * pi / 3)"
      "cmod (z ! a) = 1" "0 < thr"
      using abc rb zb za thr by auto
    show "\<forall>j<length z. j \<noteq> b \<longrightarrow> thr \<le> cmod (z ! j - z ! a * cis (2 * pi / 3))"
    proof (intro allI impI)
      fix j assume j: "j < length z" "j \<noteq> b"
      consider "j = a" | "j = c" | "j \<noteq> a" "j \<noteq> c" by blast
      then show "thr \<le> cmod (z ! j - z ! a * cis (2 * pi / 3))"
      proof cases
        case 1
        then show ?thesis using far_apart(1) [OF za] thr1 by simp
      next
        case 2
        then show ?thesis using far_apart(3) [OF za] thr1 by (simp add: zc)
      next
        case 3
        with j show ?thesis using out [of j "z ! a * cis (2 * pi / 3)"] za
          by (simp add: norm_mult)
      qed
    qed
  qed
  show "argmax (masked (map cmod z) (mask_fp z (z ! a) (cis (- (2 * pi / 3))) thr)) = Inr c"
  proof (rule disk_only)
    show "c < length z" "cmod (z ! c) = 1" "z ! c = z ! a * cis (- (2 * pi / 3))"
      "cmod (z ! a) = 1" "0 < thr"
      using abc rc zc za thr by auto
    show "\<forall>j<length z. j \<noteq> c \<longrightarrow> thr \<le> cmod (z ! j - z ! a * cis (- (2 * pi / 3)))"
    proof (intro allI impI)
      fix j assume j: "j < length z" "j \<noteq> c"
      consider "j = a" | "j = b" | "j \<noteq> a" "j \<noteq> b" by blast
      then show "thr \<le> cmod (z ! j - z ! a * cis (- (2 * pi / 3)))"
      proof cases
        case 1
        then show ?thesis using far_apart(2) [OF za] thr1 by simp
      next
        case 2
        then show ?thesis using far_apart(4) [OF za] thr1 by (simp add: zb)
      next
        case 3
        with j show ?thesis using out [of j "z ! a * cis (- (2 * pi / 3))"] za
          by (simp add: norm_mult)
      qed
    qed
  qed
qed

lemma sqrt12: "3 < sqrt 12"
  by (rule real_less_rsqrt) simp

lemma find_exists:
  assumes rows: "x_norm nc = xn # xnr" "px_norm nc = pxn # pnr"
      "tbt_x tb = xp # xpr" "tbt_px tb = pxp # ppr"
    and len: "length pxn = length xn" "length xp = length xn" "length pxp = length xn"
    and ne: "xn \<noteq> []"
    and z: "z = map2 Complex xn pxn"
  shows "\<exists>i1 i2 i3. i1 < length z \<and> i2 < length z \<and> i3 < length z \<and>
    argmax (map cmod z) = Inr i1 \<and>
    argmax (masked (map cmod z) (mask_fp z (z ! i1) (cis (2 * pi / 3)) threshold)) = Inr i2 \<and>
    argmax (masked (map cmod z) (mask_fp z (z ! i1) (cis (- (2 * pi / 3))) threshold)) = Inr i3 \<and>
    (\<forall>j<length z. cmod (z ! j) \<le> cmod (z ! i1)) \<and>
    (\<forall>j<i1. cmod (z ! j) < cmod (z ! i1)) \<and>
    find_fixed_points tb nc threshold =
      Inr \<lparr>x_norm_fp = [xn ! i1, xn ! i2, xn ! i3], px_norm_fp = [pxn ! i1, pxn ! i2, pxn ! i3],
           x_fp = [xp ! i1, xp ! i2, xp ! i3], px_fp = [pxp ! i1, pxp ! i2, pxp ! i3]\<rparr>"
proof -
  have lz: "length z = length xn" using len by (simp add: z)
  with ne have zne: "map cmod z \<noteq> []" by auto
  from argmax_spec [OF zne] obtain i1 where i1: "argmax (map cmod z) = Inr i1"
    "i1 < length z" "\<forall>j<length z. cmod (z ! j) \<le> cmod (z ! i1)"
    "\<forall>j<i1. cmod (z ! j) < cmod (z ! i1)"
    by auto
  have mne: "masked (map cmod z) (mask_fp z (z ! i1) rot threshold) \<noteq> []" for rot
    using zne by (simp add: masked_def mask_fp_def)
  have ml: "length (masked (map cmod z) (mask_fp z (z ! i1) rot threshold)) = length z" for rot
    by (simp add: length_masked length_mask_fp)
  from argmax_spec [OF mne] ml obtain i2 where i2:
    "argmax (masked (map cmod z) (mask_fp z (z ! i1) (cis (2 * pi / 3)) threshold)) = Inr i2"
    "i2 < length z"
    by metis
  from argmax_spec [OF mne] ml obtain i3 where i3:
    "argmax (masked (map cmod z) (mask_fp z (z ! i1) (cis (- (2 * pi / 3))) threshold)) = Inr i3"
    "i3 < length z"
    by metis
  have "find_fixed_points tb nc threshold =
      Inr \<lparr>x_norm_fp = [xn ! i1, xn ! i2, xn ! i3], px_norm_fp = [pxn ! i1, pxn ! i2, pxn ! i3],
           x_fp = [xp ! i1, xp ! i2, xp ! i3], px_fp = [pxp ! i1, pxp ! i2, pxp ! i3]\<rparr>"
    by (rule find_unfold [OF rows len z i1(1) i2(1) i3(1)]) (use i1 i2 i3 lz in simp_all)
  with i1 i2 i3 show ?thesis by blast
qed

lemma disk_rule:
  assumes i: "argmax (masked (map cmod z) (mask_fp z zf rot thr)) = Inr i"
    and j0: "j0 < length z" "in_disk (zf * rot) (thr * cmod zf) (z ! j0)" "0 < cmod (z ! j0)"
  shows "in_disk (zf * rot) (thr * cmod zf) (z ! i) \<and>
    (\<forall>j<length z. in_disk (zf * rot) (thr * cmod zf) (z ! j) \<longrightarrow> cmod (z ! j) \<le> cmod (z ! i))"
proof -
  have "\<exists>k. argmax (masked (map cmod z) (mask_fp z zf rot thr)) = Inr k \<and>
    k < length (map cmod z) \<and> mask_fp z zf rot thr ! k \<and>
    (\<forall>j<length (map cmod z). mask_fp z zf rot thr ! j \<longrightarrow> map cmod z ! j \<le> map cmod z ! k)"
    by (rule argmax_masked_some [where ?j0.0 = j0]) (use j0 in \<open>simp_all add: length_mask_fp mask_fp_nth\<close>)
  with i have "i < length z" "mask_fp z zf rot thr ! i"
    "\<forall>j<length z. mask_fp z zf rot thr ! j \<longrightarrow> cmod (z ! j) \<le> cmod (z ! i)"
    by auto
  then show ?thesis by (simp add: mask_fp_nth)
qed

text \<open>
  C3 (as amended). For a physical and a normalized recording of the same turns (at least
  one turn), with \<open>z\<close> the normalized samples as complex numbers, the function returns the
  samples at three indices \<open>i1\<close>, \<open>i2\<close>, \<open>i3\<close>. The first is the first sample of the
  greatest amplitude. If
  the disk of radius \<open>threshold\<close> times that amplitude around the first fixed point
  turned by +120 degrees holds a sample of non-zero amplitude, the second lies in that
  disk and has the greatest amplitude among the samples in it; likewise for the third at
  -120 degrees. In particular, when the samples at \<open>a\<close>, \<open>b\<close>, \<open>c\<close> are the points of
  amplitude 1 at 0, 120 and 240 degrees, every other sample has an amplitude of at most
  \<open>eps\<close> with \<open>0 < threshold \<le> 1 - eps\<close>, and the sample at 0 degrees is recorded before
  the other two, the function returns exactly these three samples in the order
  0, 120, 240 degrees.
\<close>

theorem find_fixed_points_selection:
  assumes rows: "x_norm nc = xn # xnr" "px_norm nc = pxn # pnr"
      "tbt_x tb = xp # xpr" "tbt_px tb = pxp # ppr"
    and len: "length pxn = length xn" "length xp = length xn" "length pxp = length xn"
    and ne: "xn \<noteq> []"
    and z: "z = map2 Complex xn pxn"
  shows "\<exists>i1 i2 i3. i1 < length z \<and> i2 < length z \<and> i3 < length z \<and>
    find_fixed_points tb nc threshold =
      Inr \<lparr>x_norm_fp = [xn ! i1, xn ! i2, xn ! i3], px_norm_fp = [pxn ! i1, pxn ! i2, pxn ! i3],
           x_fp = [xp ! i1, xp ! i2, xp ! i3], px_fp = [pxp ! i1, pxp ! i2, pxp ! i3]\<rparr> \<and>
    (\<forall>j<length z. cmod (z ! j) \<le> cmod (z ! i1)) \<and>
    (\<forall>j<i1. cmod (z ! j) < cmod (z ! i1)) \<and>
    ((\<exists>j<length z. in_disk (z ! i1 * cis (2 * pi / 3)) (threshold * cmod (z ! i1)) (z ! j) \<and>
         0 < cmod (z ! j)) \<longrightarrow>
       in_disk (z ! i1 * cis (2 * pi / 3)) (threshold * cmod (z ! i1)) (z ! i2) \<and>
       (\<forall>j<length z. in_disk (z ! i1 * cis (2 * pi / 3)) (threshold * cmod (z ! i1)) (z ! j)
          \<longrightarrow> cmod (z ! j) \<le> cmod (z ! i2))) \<and>
    ((\<exists>j<length z. in_disk (z ! i1 * cis (- (2 * pi / 3))) (threshold * cmod (z ! i1)) (z ! j) \<and>
         0 < cmod (z ! j)) \<longrightarrow>
       in_disk (z ! i1 * cis (- (2 * pi / 3))) (threshold * cmod (z ! i1)) (z ! i3) \<and>
       (\<forall>j<length z. in_disk (z ! i1 * cis (- (2 * pi / 3))) (threshold * cmod (z ! i1)) (z ! j)
          \<longrightarrow> cmod (z ! j) \<le> cmod (z ! i3))) \<and>
    (a < length z \<and> b < length z \<and> c < length z \<and> a < b \<and> a < c \<and>
     z ! a = 1 \<and> z ! b = cis (2 * pi / 3) \<and> z ! c = cis (- (2 * pi / 3)) \<and>
     (\<forall>j<length z. j \<noteq> a \<and> j \<noteq> b \<and> j \<noteq> c \<longrightarrow> cmod (z ! j) \<le> eps) \<and>
     0 < threshold \<and> 0 \<le> eps \<and> threshold + eps \<le> 1
     \<longrightarrow> i1 = a \<and> i2 = b \<and> i3 = c)"
proof -
  from find_exists [OF rows len ne z, of threshold] obtain i1 i2 i3 where
    lt: "i1 < length z" "i2 < length z" "i3 < length z"
    and i1: "argmax (map cmod z) = Inr i1"
    and i2: "argmax (masked (map cmod z) (mask_fp z (z ! i1) (cis (2 * pi / 3)) threshold)) = Inr i2"
    and i3: "argmax (masked (map cmod z) (mask_fp z (z ! i1) (cis (- (2 * pi / 3))) threshold)) = Inr i3"
    and mx: "\<forall>j<length z. cmod (z ! j) \<le> cmod (z ! i1)"
      "\<forall>j<i1. cmod (z ! j) < cmod (z ! i1)"
    and res: "find_fixed_points tb nc threshold =
      Inr \<lparr>x_norm_fp = [xn ! i1, xn ! i2, xn ! i3], px_norm_fp = [pxn ! i1, pxn ! i2, pxn ! i3],
           x_fp = [xp ! i1, xp ! i2, xp ! i3], px_fp = [pxp ! i1, pxp ! i2, pxp ! i3]\<rparr>"
    by blast
  have p2: "(\<exists>j<length z. in_disk (z ! i1 * cis (2 * pi / 3)) (threshold * cmod (z ! i1)) (z ! j) \<and>
         0 < cmod (z ! j)) \<longrightarrow>
       in_disk (z ! i1 * cis (2 * pi / 3)) (threshold * cmod (z ! i1)) (z ! i2) \<and>
       (\<forall>j<length z. in_disk (z ! i1 * cis (2 * pi / 3)) (threshold * cmod (z ! i1)) (z ! j)
          \<longrightarrow> cmod (z ! j) \<le> cmod (z ! i2))"
    using disk_rule [OF i2] by blast
  have p3: "(\<exists>j<length z. in_disk (z ! i1 * cis (- (2 * pi / 3))) (threshold * cmod (z ! i1)) (z ! j) \<and>
         0 < cmod (z ! j)) \<longrightarrow>
       in_disk (z ! i1 * cis (- (2 * pi / 3))) (threshold * cmod (z ! i1)) (z ! i3) \<and>
       (\<forall>j<length z. in_disk (z ! i1 * cis (- (2 * pi / 3))) (threshold * cmod (z ! i1)) (z ! j)
          \<longrightarrow> cmod (z ! j) \<le> cmod (z ! i3))"
    using disk_rule [OF i3] by blast
  have p4: "i1 = a \<and> i2 = b \<and> i3 = c"
    if h: "a < length z \<and> b < length z \<and> c < length z \<and> a < b \<and> a < c \<and>
     z ! a = 1 \<and> z ! b = cis (2 * pi / 3) \<and> z ! c = cis (- (2 * pi / 3)) \<and>
     (\<forall>j<length z. j \<noteq> a \<and> j \<noteq> b \<and> j \<noteq> c \<longrightarrow> cmod (z ! j) \<le> eps) \<and>
     0 < threshold \<and> 0 \<le> eps \<and> threshold + eps \<le> 1"
  proof -
    from h have abc: "a < length z" "b < length z" "c < length z" "a < b" "a < c"
      and za: "cmod (z ! a) = 1"
      and zb: "z ! b = z ! a * cis (2 * pi / 3)"
      and zc: "z ! c = z ! a * cis (- (2 * pi / 3))"
      and others: "\<forall>j<length z. j \<noteq> a \<and> j \<noteq> b \<and> j \<noteq> c \<longrightarrow> cmod (z ! j) \<le> eps"
      and thr: "0 < threshold" "0 \<le> eps" "threshold + eps \<le> 1"
      by simp_all
    note t = three_fold [OF abc za zb zc others thr]
    from t(1) i1 have "i1 = a" by simp
    with t i2 i3 show ?thesis by simp
  qed
  from lt res mx p2 p3 p4 show ?thesis by blast
qed

theorem find_fixed_points_selection_witness:
  "map2 Complex [1, 0, - (1 / 2), 1 / 100, - (1 / 2)] [0, 0, sqrt 3 / 2, 0, - (sqrt 3 / 2)] ! 0 = 1 \<and>
   map2 Complex [1, 0, - (1 / 2), 1 / 100, - (1 / 2)] [0, 0, sqrt 3 / 2, 0, - (sqrt 3 / 2)] ! 2
     = cis (2 * pi / 3) \<and>
   map2 Complex [1, 0, - (1 / 2), 1 / 100, - (1 / 2)] [0, 0, sqrt 3 / 2, 0, - (sqrt 3 / 2)] ! 4
     = cis (- (2 * pi / 3)) \<and>
   find_fixed_points \<lparr>tbt_x = [[1, 2, 3, 4, 5]], tbt_px = [[6, 7, 8, 9, 10]]\<rparr>
      \<lparr>x_norm = [[1, 0, - (1 / 2), 1 / 100, - (1 / 2)]],
       px_norm = [[0, 0, sqrt 3 / 2, 0, - (sqrt 3 / 2)]]\<rparr> (2/10) =
    Inr \<lparr>x_norm_fp = [1, - (1 / 2), - (1 / 2)], px_norm_fp = [0, sqrt 3 / 2, - (sqrt 3 / 2)],
         x_fp = [1, 3, 5], px_fp = [6, 8, 10]\<rparr>"
proof -
  let ?xn = "[1, 0, - (1 / 2), 1 / 100, - (1 / 2) :: real]"
  let ?pxn = "[0, 0, sqrt 3 / 2, 0, - (sqrt 3 / 2)]"
  let ?xp = "[1, 2, 3, 4, 5 :: real]"
  let ?pxp = "[6, 7, 8, 9, 10 :: real]"
  let ?tb = "\<lparr>tbt_x = [?xp], tbt_px = [?pxp]\<rparr>"
  let ?nc = "\<lparr>x_norm = [?xn], px_norm = [?pxn]\<rparr>"
  let ?z = "map2 Complex ?xn ?pxn"
  have rows: "x_norm ?nc = ?xn # []" "px_norm ?nc = ?pxn # []"
    "tbt_x ?tb = ?xp # []" "tbt_px ?tb = ?pxp # []"
    by simp_all
  have len: "length ?pxn = length ?xn" "length ?xp = length ?xn" "length ?pxp = length ?xn"
    by simp_all
  have ne: "?xn \<noteq> []" by simp
  have z0: "?z ! 0 = 1" by (simp add: complex_eq_iff)
  have z2: "?z ! 2 = cis (2 * pi / 3)" by (simp add: cis_120)
  have z4: "?z ! 4 = cis (- (2 * pi / 3))" by (simp add: cis_240)
  have others: "\<forall>j<length ?z. j \<noteq> 0 \<and> j \<noteq> 2 \<and> j \<noteq> 4 \<longrightarrow> cmod (?z ! j) \<le> 1 / 100"
  proof (intro allI impI)
    fix j assume "j < length ?z" "j \<noteq> 0 \<and> j \<noteq> 2 \<and> j \<noteq> 4"
    then have "j = 1 \<or> j = 3" by (simp, arith)
    then show "cmod (?z ! j) \<le> 1 / 100" by (auto simp: cmod_def)
  qed
  from find_fixed_points_selection [OF rows len ne refl, of "2/10" 0 2 4 "1/100"]
  obtain i1 i2 i3 where
    res: "find_fixed_points ?tb ?nc (2/10) =
      Inr \<lparr>x_norm_fp = [?xn ! i1, ?xn ! i2, ?xn ! i3], px_norm_fp = [?pxn ! i1, ?pxn ! i2, ?pxn ! i3],
           x_fp = [?xp ! i1, ?xp ! i2, ?xp ! i3], px_fp = [?pxp ! i1, ?pxp ! i2, ?pxp ! i3]\<rparr>"
    and imp: "0 < length ?z \<and> 2 < length ?z \<and> 4 < length ?z \<and> (0::nat) < 2 \<and> (0::nat) < 4 \<and>
     ?z ! 0 = 1 \<and> ?z ! 2 = cis (2 * pi / 3) \<and> ?z ! 4 = cis (- (2 * pi / 3)) \<and>
     (\<forall>j<length ?z. j \<noteq> 0 \<and> j \<noteq> 2 \<and> j \<noteq> 4 \<longrightarrow> cmod (?z ! j) \<le> 1 / 100) \<and>
     (0::real) < 2/10 \<and> (0::real) \<le> 1 / 100 \<and> (2/10::real) + 1 / 100 \<le> 1
     \<longrightarrow> i1 = 0 \<and> i2 = 2 \<and> i3 = 4"
    by (elim exE conjE) (rule that, assumption+)
  have "i1 = 0 \<and> i2 = 2 \<and> i3 = 4"
    by (rule imp [rule_format]) (use z0 z2 z4 others in simp)
  with res have "find_fixed_points ?tb ?nc (2/10) =
    Inr \<lparr>x_norm_fp = [1, - (1 / 2), - (1 / 2)], px_norm_fp = [0, sqrt 3 / 2, - (sqrt 3 / 2)],
         x_fp = [1, 3, 5], px_fp = [6, 8, 10]\<rparr>"
    by simp
  with z0 z2 z4 show ?thesis by (intro conjI)
qed

lemma wide_disk_eval:
  "find_fixed_points \<lparr>tbt_x = [[1, 2]], tbt_px = [[3, 4]]\<rparr>
      \<lparr>x_norm = [[2, 0]], px_norm = [[0, 0]]\<rparr> (3/2) =
    Inr \<lparr>x_norm_fp = [2, 2, 2], px_norm_fp = [0, 0, 0], x_fp = [1, 1, 1], px_fp = [3, 3, 3]\<rparr>"
proof -
  let ?z = "map2 Complex [2, 0] [0, 0]"
  have n: "\<not> sqrt 12 < 3" using sqrt12 by simp
  have i1: "argmax (map cmod ?z) = Inr 0"
    by (simp add: argmax_def cmod_def)
  have i2: "argmax (masked (map cmod ?z) (mask_fp ?z (?z ! 0) (cis (2 * pi / 3)) (3/2))) = Inr 0"
    by (simp add: argmax_def masked_def mask_fp_def cis_120 cmod_def n)
  have i3: "argmax (masked (map cmod ?z) (mask_fp ?z (?z ! 0) (cis (- (2 * pi / 3))) (3/2))) = Inr 0"
    by (simp add: argmax_def masked_def mask_fp_def cis_240 cmod_def n)
  have "find_fixed_points \<lparr>tbt_x = [[1, 2]], tbt_px = [[3, 4]]\<rparr>
      \<lparr>x_norm = [[2, 0]], px_norm = [[0, 0]]\<rparr> (3/2) =
    Inr \<lparr>x_norm_fp = [[2, 0] ! 0, [2, 0] ! 0, [2, 0] ! 0],
         px_norm_fp = [[0, 0] ! 0, [0, 0] ! 0, [0, 0] ! 0],
         x_fp = [[1, 2] ! 0, [1, 2] ! 0, [1, 2] ! 0], px_fp = [[3, 4] ! 0, [3, 4] ! 0, [3, 4] ! 0]\<rparr>"
    by (rule find_unfold [OF _ _ _ _ _ _ _ refl i1 i2 i3]) simp_all
  then show ?thesis by simp
qed

lemma wide_disk_members:
  "in_disk (Complex 2 0 * cis (2 * pi / 3)) (3/2 * cmod (Complex 2 0)) (Complex 0 0)"
  "\<not> in_disk (Complex 2 0 * cis (2 * pi / 3)) (3/2 * cmod (Complex 2 0)) (Complex 2 0)"
  using sqrt12 by (simp_all add: in_disk_def cis_120 cmod_def)

lemma rotated_order_eval:
  "find_fixed_points \<lparr>tbt_x = [[10, 20, 30]], tbt_px = [[1, 2, 3]]\<rparr>
      \<lparr>x_norm = [[- (1 / 2), 1, - (1 / 2)]], px_norm = [[sqrt 3 / 2, 0, - (sqrt 3 / 2)]]\<rparr> (2/10) =
    Inr \<lparr>x_norm_fp = [- (1 / 2), - (1 / 2), 1], px_norm_fp = [sqrt 3 / 2, - (sqrt 3 / 2), 0],
         x_fp = [10, 30, 20], px_fp = [1, 3, 2]\<rparr>"
proof -
  let ?xn = "[- (1 / 2), 1, - (1 / 2) :: real]"
  let ?pxn = "[sqrt 3 / 2, 0, - (sqrt 3 / 2)]"
  let ?z = "map2 Complex ?xn ?pxn"
  have abc: "0 < length ?z" "2 < length ?z" "1 < length ?z" "(0::nat) < 2" "(0::nat) < 1"
    by simp_all
  have za: "cmod (?z ! 0) = 1" by (simp add: cmod_def power_divide)
  have zb: "?z ! 2 = ?z ! 0 * cis (2 * pi / 3)"
    by (simp add: cis_120 complex_eq_iff)
  have zc: "?z ! 1 = ?z ! 0 * cis (- (2 * pi / 3))"
    by (simp add: cis_240 complex_eq_iff)
  have others: "\<forall>j<length ?z. j \<noteq> 0 \<and> j \<noteq> 2 \<and> j \<noteq> 1 \<longrightarrow> cmod (?z ! j) \<le> 0"
    by auto
  have thr: "(0::real) < 2/10" "(0::real) \<le> 0" "(2/10 :: real) + 0 \<le> 1" by simp_all
  note t = three_fold [OF abc za zb zc others thr]
  have "find_fixed_points \<lparr>tbt_x = [[10, 20, 30]], tbt_px = [[1, 2, 3]]\<rparr>
      \<lparr>x_norm = [?xn], px_norm = [?pxn]\<rparr> (2/10) =
    Inr \<lparr>x_norm_fp = [?xn ! 0, ?xn ! 2, ?xn ! 1], px_norm_fp = [?pxn ! 0, ?pxn ! 2, ?pxn ! 1],
         x_fp = [[10, 20, 30] ! 0, [10, 20, 30] ! 2, [10, 20, 30] ! 1],
         px_fp = [[1, 2, 3] ! 0, [1, 2, 3] ! 2, [1, 2, 3] ! 1]\<rparr>"
    by (rule find_unfold [OF _ _ _ _ _ _ _ refl t]) simp_all
  then show ?thesis by simp
qed

text \<open>
  C3 fails as stated in two ways. Amplitudes that tie are resolved to the first index:
  when the sample at 120 degrees is recorded first, the three samples come back in the
  order 120, 240, 0 degrees. And a sample of amplitude zero in the disk does not count:
  with the threshold \<open>3/2\<close> the only sample in the disk is the origin, and the second
  fixed point returned is the sample at index 0, which is outside the disk.
\<close>

theorem find_fixed_points_selection_counterexample:
  "find_fixed_points \<lparr>tbt_x = [[10, 20, 30]], tbt_px = [[1, 2, 3]]\<rparr>
      \<lparr>x_norm = [[- (1 / 2), 1, - (1 / 2)]], px_norm = [[sqrt 3 / 2, 0, - (sqrt 3 / 2)]]\<rparr> (2/10) =
    Inr \<lparr>x_norm_fp = [- (1 / 2), - (1 / 2), 1], px_norm_fp = [sqrt 3 / 2, - (sqrt 3 / 2), 0],
         x_fp = [10, 30, 20], px_fp = [1, 3, 2]\<rparr> \<and>
   find_fixed_points \<lparr>tbt_x = [[1, 2]], tbt_px = [[3, 4]]\<rparr>
      \<lparr>x_norm = [[2, 0]], px_norm = [[0, 0]]\<rparr> (3/2) =
    Inr \<lparr>x_norm_fp = [2, 2, 2], px_norm_fp = [0, 0, 0], x_fp = [1, 1, 1], px_fp = [3, 3, 3]\<rparr> \<and>
   in_disk (Complex 2 0 * cis (2 * pi / 3)) (3/2 * cmod (Complex 2 0)) (Complex 0 0) \<and>
   \<not> in_disk (Complex 2 0 * cis (2 * pi / 3)) (3/2 * cmod (Complex 2 0)) (Complex 2 0)"
  by (intro conjI rotated_order_eval wide_disk_eval wide_disk_members)

text \<open>
  C6. When the mask of the second (third) fixed point is false everywhere, the function
  raises nothing and returns the sample at index 0 as the second (third) fixed point, in
  normalized and in physical coordinates.
\<close>

theorem find_fixed_points_empty_disk:
  assumes rows: "x_norm nc = xn # xnr" "px_norm nc = pxn # pnr"
      "tbt_x tb = xp # xpr" "tbt_px tb = pxp # ppr"
    and len: "length pxn = length xn" "length xp = length xn" "length pxp = length xn"
    and ne: "xn \<noteq> []"
    and z: "z = map2 Complex xn pxn"
    and i1: "argmax (map cmod z) = Inr i1"
  shows "\<exists>r. find_fixed_points tb nc threshold = Inr r \<and>
    (True \<notin> set (mask_fp z (z ! i1) (exp (\<i> * 2 / 3 * of_real pi)) threshold) \<longrightarrow>
       x_norm_fp r ! 1 = xn ! 0 \<and> px_norm_fp r ! 1 = pxn ! 0 \<and>
       x_fp r ! 1 = xp ! 0 \<and> px_fp r ! 1 = pxp ! 0) \<and>
    (True \<notin> set (mask_fp z (z ! i1) (exp (- \<i> * 2 / 3 * of_real pi)) threshold) \<longrightarrow>
       x_norm_fp r ! 2 = xn ! 0 \<and> px_norm_fp r ! 2 = pxn ! 0 \<and>
       x_fp r ! 2 = xp ! 0 \<and> px_fp r ! 2 = pxp ! 0)"
proof -
  from find_exists [OF rows len ne z, of threshold] i1 obtain i2 i3 where
    i2: "argmax (masked (map cmod z) (mask_fp z (z ! i1) (cis (2 * pi / 3)) threshold)) = Inr i2"
    and i3: "argmax (masked (map cmod z) (mask_fp z (z ! i1) (cis (- (2 * pi / 3))) threshold)) = Inr i3"
    and res: "find_fixed_points tb nc threshold =
      Inr \<lparr>x_norm_fp = [xn ! i1, xn ! i2, xn ! i3], px_norm_fp = [pxn ! i1, pxn ! i2, pxn ! i3],
           x_fp = [xp ! i1, xp ! i2, xp ! i3], px_fp = [pxp ! i1, pxp ! i2, pxp ! i3]\<rparr>"
    by auto
  have zne: "map cmod z \<noteq> []" using ne len by (auto simp: z)
  have none: "argmax (masked (map cmod z) (mask_fp z (z ! i1) rot threshold)) = Inr 0"
    if "True \<notin> set (mask_fp z (z ! i1) rot threshold)" for rot
    by (rule argmax_masked_none) (use that zne in \<open>simp_all add: length_mask_fp\<close>)
  have "i2 = 0" if "True \<notin> set (mask_fp z (z ! i1) (exp (\<i> * 2 / 3 * of_real pi)) threshold)"
    using none [of "cis (2 * pi / 3)"] that [unfolded rot_plus] i2 by simp
  moreover have "i3 = 0"
    if "True \<notin> set (mask_fp z (z ! i1) (exp (- \<i> * 2 / 3 * of_real pi)) threshold)"
    using none [of "cis (- (2 * pi / 3))"] that [unfolded rot_minus] i3 by simp
  ultimately show ?thesis using res by auto
qed

theorem find_fixed_points_empty_disk_witness:
  "argmax (map cmod (map2 Complex [0, 2] [0, 0])) = Inr 1 \<and>
   True \<notin> set (mask_fp (map2 Complex [0, 2] [0, 0]) (map2 Complex [0, 2] [0, 0] ! 1)
       (exp (\<i> * 2 / 3 * of_real pi)) (2/10)) \<and>
   True \<notin> set (mask_fp (map2 Complex [0, 2] [0, 0]) (map2 Complex [0, 2] [0, 0] ! 1)
       (exp (- \<i> * 2 / 3 * of_real pi)) (2/10)) \<and>
   (\<exists>r. find_fixed_points \<lparr>tbt_x = [[7, 8]], tbt_px = [[9, 10]]\<rparr>
        \<lparr>x_norm = [[0, 2]], px_norm = [[0, 0]]\<rparr> (2/10) = Inr r \<and>
      x_norm_fp r ! 1 = 0 \<and> px_norm_fp r ! 1 = 0 \<and> x_fp r ! 1 = 7 \<and> px_fp r ! 1 = 9 \<and>
      x_norm_fp r ! 2 = 0 \<and> px_norm_fp r ! 2 = 0 \<and> x_fp r ! 2 = 7 \<and> px_fp r ! 2 = 9)"
proof -
  let ?xn = "[0, 2 :: real]"
  let ?pxn = "[0, 0 :: real]"
  let ?xp = "[7, 8 :: real]"
  let ?pxp = "[9, 10 :: real]"
  let ?tb = "\<lparr>tbt_x = [?xp], tbt_px = [?pxp]\<rparr>"
  let ?nc = "\<lparr>x_norm = [?xn], px_norm = [?pxn]\<rparr>"
  let ?z = "map2 Complex ?xn ?pxn"
  have rows: "x_norm ?nc = ?xn # []" "px_norm ?nc = ?pxn # []"
    "tbt_x ?tb = ?xp # []" "tbt_px ?tb = ?pxp # []"
    by simp_all
  have len: "length ?pxn = length ?xn" "length ?xp = length ?xn" "length ?pxp = length ?xn"
    by simp_all
  have ne: "?xn \<noteq> []" by simp
  have i1: "argmax (map cmod ?z) = Inr 1" by (simp add: argmax_def cmod_def)
  have n: "\<not> sqrt 12 * 5 < 2" using sqrt12 by simp
  have m2: "True \<notin> set (mask_fp ?z (?z ! 1) (exp (\<i> * 2 / 3 * of_real pi)) (2/10))"
    unfolding rot_plus by (simp add: mask_fp_def cis_120 cmod_def n)
  have m3: "True \<notin> set (mask_fp ?z (?z ! 1) (exp (- \<i> * 2 / 3 * of_real pi)) (2/10))"
    unfolding rot_minus by (simp add: mask_fp_def cis_240 cmod_def n)
  from find_fixed_points_empty_disk [OF rows len ne refl i1, of "2/10"] m2 m3
  have "\<exists>r. find_fixed_points ?tb ?nc (2/10) = Inr r \<and>
      x_norm_fp r ! 1 = 0 \<and> px_norm_fp r ! 1 = 0 \<and> x_fp r ! 1 = 7 \<and> px_fp r ! 1 = 9 \<and>
      x_norm_fp r ! 2 = 0 \<and> px_norm_fp r ! 2 = 0 \<and> x_fp r ! 2 = 7 \<and> px_fp r ! 2 = 9"
    by auto
  with i1 m2 m3 show ?thesis by (intro conjI)
qed

end
